theory Spec2Isabelle
  imports Main
begin

section \<open>Strings of the host language\<close>

text \<open>
  A JavaScript string is a sequence of code units and \<open>length\<close> counts them; the model
  takes \<open>string\<close> for it.  \<open>slice\<close> clamps its two indices to the string and counts a
  negative index from the end; \<open>-0\<close> is the index \<open>0\<close>.
\<close>

definition js_index :: "int \<Rightarrow> int \<Rightarrow> int" where
  "js_index len i = (if i < 0 then max (len + i) 0 else min i len)"

definition js_slice :: "string \<Rightarrow> int \<Rightarrow> int \<Rightarrow> string" where
  "js_slice s start stop =
     (let len = int (length s);
          lo = js_index len start;
          hi = js_index len stop
      in take (nat (hi - lo)) (drop (nat lo) s))"

text \<open>\<open>s.slice(start)\<close>: the end index defaults to the length.\<close>

definition js_slice_from :: "string \<Rightarrow> int \<Rightarrow> string" where
  "js_slice_from s start = js_slice s start (int (length s))"

text \<open>\<open>s.lastIndexOf(c)\<close> searches backwards from the end; \<open>-1\<close> when \<open>c\<close> is absent.\<close>

definition lastIndexOf :: "string \<Rightarrow> char \<Rightarrow> int" where
  "lastIndexOf s c =
     (if c \<in> set s
      then int (length s) - 1 - int (length (takeWhile (\<lambda>x. x \<noteq> c) (rev s)))
      else - 1)"

text \<open>\<open>Math.ceil(k / 2)\<close> and \<open>Math.floor(k / 2)\<close> on an integer \<open>k\<close>.\<close>

definition ceil_half :: "int \<Rightarrow> int" where
  "ceil_half k = - ((- k) div 2)"

definition floor_half :: "int \<Rightarrow> int" where
  "floor_half k = k div 2"

section \<open>Results renderer: display names\<close>

text \<open>The extension and the base name as \<open>smartTruncate\<close> computes them.\<close>

definition file_ext :: "string \<Rightarrow> string" where
  "file_ext filename =
     (let extIndex = lastIndexOf filename (CHR ''.'')
      in if extIndex \<noteq> - 1 then js_slice_from filename extIndex else [])"

definition file_base :: "string \<Rightarrow> string" where
  "file_base filename =
     (let extIndex = lastIndexOf filename (CHR ''.'')
      in if extIndex \<noteq> - 1 then js_slice filename 0 extIndex else filename)"

definition smartTruncate :: "string \<Rightarrow> int \<Rightarrow> string" where
  "smartTruncate filename maxLen =
     (if filename = [] \<or> int (length filename) \<le> maxLen then filename
      else
        let ext = file_ext filename;
            base = file_base filename;
            keep = maxLen - int (length ext) - 3;
            startLen = ceil_half keep;
            endLen = floor_half keep
        in js_slice base 0 startLen @ ''...'' @ js_slice_from base (- endLen) @ ext)"

section \<open>Year picker\<close>
























section \<open>Backend responses\<close>

text \<open>
  What \<open>await fetch(...)\<close> followed by \<open>await resp.json()\<close> can give.  \<open>fetch\<close> rejects
  (\<open>Rejected\<close>) or resolves with a status; the body then fails to parse (\<open>NotJson\<close>, which
  every call site replaces by its own default through \<open>.catch\<close>), parses to \<open>null\<close>, or
  parses to an object whose fields the handler reads.
\<close>

datatype 'a json_body = NotJson | JsonNull | JsonObject 'a

datatype 'a fetch_result = Rejected | Response nat "'a json_body"

text \<open>\<open>resp.ok\<close>: the status is in the range 200-299.\<close>

definition resp_ok :: "nat \<Rightarrow> bool" where
  "resp_ok status \<longleftrightarrow> 200 \<le> status \<and> status \<le> 299"

text \<open>
  The fields the note, save and delete endpoints answer with.  \<open>reply_ok\<close> says that the
  \<open>ok\<close> property is present and truthy; a text property is absent (\<open>None\<close>) or a string,
  and the empty string is falsy.
\<close>

record reply =
  reply_ok :: bool
  reply_msg :: "string option"
  reply_summary :: "string option"
  reply_content :: "string option"
  reply_template :: "string option"

definition empty_reply :: reply where
  "empty_reply = \<lparr>reply_ok = False, reply_msg = None, reply_summary = None,
     reply_content = None, reply_template = None\<rparr>"

text \<open>\<open>x || d\<close> on an optional string.\<close>

definition or_else :: "string option \<Rightarrow> string \<Rightarrow> string" where
  "or_else x d = (case x of None \<Rightarrow> d | Some s \<Rightarrow> if s = [] then d else s)"

text \<open>
  The text of a failure shown to the user: the server's message, the fallback
  \<open>HTTP <status>\<close>, or the text of an error thrown on the way (a rejected fetch, a property
  read on \<open>null\<close>).
\<close>

datatype js_error = NetworkError | TypeError

datatype failure = ServerMsg string | HttpStatus nat | Thrown js_error

text \<open>\<open>data.msg || `HTTP ${resp.status}`\<close>\<close>

definition msg_or_status :: "string option \<Rightarrow> nat \<Rightarrow> failure" where
  "msg_or_status m status =
     (case m of None \<Rightarrow> HttpStatus status
      | Some s \<Rightarrow> if s = [] then HttpStatus status else ServerMsg s)"

section \<open>Note editor\<close>

datatype modal_state = View | Edit

datatype intent = Update | Create

text \<open>
  The two contexts the callers pass: a case triple, or a case-law record with its id and
  its \<open>onSaved\<close> callback (which writes the summary into the card's preview).  The id is
  the number the search result carries; \<open>0\<close> is falsy.
\<close>

datatype note_context =
    CaseContext string string string
  | CaseLawContext int

record notes_modal =
  modal_hidden :: bool
  dataset_state :: "modal_state option"
  dataset_intent :: "intent option"
  editor_value :: string
  editor_readOnly :: bool
  editor_displayed :: bool
  saveBtn_disabled :: bool
  saveBtn_hidden :: bool
  cancel_hidden :: bool
  editBtn_hidden :: bool
  originalContent :: string
  rawContent :: string
  noteContext :: "note_context option"

text \<open>
  What the handlers do outside the state they own.  The alerts stand for the texts
  \<open>Notes saved!\<close>, \<open>Note.json created!\<close>, \<open>Save failed: ...\<close>,
  \<open>Missing case-law identifier.\<close>, \<open>Select Year, Month, and Case first.\<close>,
  \<open>Delete failed: ...\<close>, \<open>Note.json not found for this case.\<close>, \<open>Search failed: ...\<close>
  and \<open>Unable to load note: ...\<close>, the dots being the failure's text.
\<close>

datatype alert =
    NotesSaved
  | NoteCreated
  | SaveFailed failure
  | MissingCaseLawId
  | SelectCaseFirst
  | DeleteFailed failure
  | NoteNotFound
  | SearchFailed failure
  | UnableToLoadNote failure

datatype request =
    PostCaseLawNote int string
  | PostCreateNote string string string string
  | PostNote string string string string
  | GetNote string string string
  | GetDirTree string
  | PostDeleteFile string

datatype effect =
    Alert alert
  | OnSaved string
  | RefreshNoteButton
  | OpenNotesModal string intent note_context
  | UncaughtRejection js_error

text \<open>
  \<open>asViewText\<close>: every escape sequence backslash-r-backslash-n, backslash-n or
  backslash-r in the raw text becomes one line feed, leftmost first.
\<close>

definition backslash :: char where
  "backslash = CHR 0x5C"

definition line_feed :: char where
  "line_feed = CHR 0x0A"

fun asViewText :: "string \<Rightarrow> string" where
  "asViewText [] = []"
| "asViewText (c # cs) =
     (if c = backslash \<and> take 3 cs = [CHR ''r'', backslash, CHR ''n'']
      then line_feed # asViewText (drop 3 cs)
      else if c = backslash \<and> (take 1 cs = [CHR ''n''] \<or> take 1 cs = [CHR ''r''])
      then line_feed # asViewText (drop 1 cs)
      else c # asViewText cs)"

definition updateDirtyState :: "notes_modal \<Rightarrow> notes_modal" where
  "updateDirtyState m =
     (if dataset_state m \<noteq> Some Edit then m\<lparr>saveBtn_disabled := True\<rparr>
      else m\<lparr>saveBtn_disabled := (editor_value m = originalContent m)\<rparr>)"

definition setState :: "modal_state \<Rightarrow> notes_modal \<Rightarrow> notes_modal" where
  "setState st m =
     (let editing = (st = Edit);
          m1 = m\<lparr>dataset_state := Some st,
                 editor_readOnly := \<not> editing,
                 saveBtn_hidden := \<not> editing,
                 cancel_hidden := \<not> editing,
                 editBtn_hidden := (editing \<or> dataset_intent m = Some Create)\<rparr>;
          m2 = (if \<not> editing then m1\<lparr>editor_value := asViewText (rawContent m1)\<rparr>
                else m1\<lparr>editor_value := rawContent m1\<rparr>)
      in updateDirtyState m2)"

definition openModal :: "string \<Rightarrow> intent \<Rightarrow> notes_modal \<Rightarrow> notes_modal" where
  "openModal text i m =
     (let m1 = m\<lparr>dataset_intent := Some (if i = Create then Create else Update),
                 rawContent := text, originalContent := text\<rparr>;
          m2 = setState (if i = Create then Edit else View) m1
      in m2\<lparr>editor_displayed := True, modal_hidden := False\<rparr>)"

definition closeModal :: "notes_modal \<Rightarrow> notes_modal" where
  "closeModal m =
     m\<lparr>modal_hidden := True, editor_readOnly := True, editor_displayed := False,
       noteContext := None\<rparr>"

text \<open>\<open>window._openNotesWith\<close>\<close>

definition openNotesWith :: "string \<Rightarrow> intent \<Rightarrow> note_context option \<Rightarrow> notes_modal \<Rightarrow> notes_modal" where
  "openNotesWith text i ctx m = openModal text i (m\<lparr>noteContext := ctx\<rparr>)"

definition on_edit_click :: "notes_modal \<Rightarrow> notes_modal" where
  "on_edit_click m = setState Edit (m\<lparr>rawContent := originalContent m\<rparr>)"

text \<open>An \<open>input\<close> event: the user has changed the editor's text to \<open>v\<close>.\<close>

definition on_input :: "string \<Rightarrow> notes_modal \<Rightarrow> notes_modal" where
  "on_input v m = updateDirtyState (m\<lparr>editor_value := v\<rparr>)"

definition handleCancel :: "notes_modal \<Rightarrow> notes_modal" where
  "handleCancel m =
     (let editing = (dataset_state m = Some Edit) in
      if \<not> editing then setState View (m\<lparr>rawContent := originalContent m\<rparr>)
      else
        let m1 = m\<lparr>rawContent := originalContent m\<rparr>
        in if dataset_intent m1 = Some Create then setState View (closeModal m1)
           else setState View m1)"

definition on_close_click :: "notes_modal \<Rightarrow> notes_modal" where
  "on_close_click m = setState View (closeModal (m\<lparr>rawContent := originalContent m\<rparr>))"

text \<open>
  \<open>saveCurrent\<close> runs in two parts around its \<open>await\<close>.  The first part reads the intent,
  the editor and the context, and either alerts and returns or sends one request; what
  it keeps for the second part is the path taken and the intent.  The values of the three
  selectors of the manage form (empty when the form is absent) come with the click.
\<close>

record selection =
  sel_year :: string
  sel_month :: string
  sel_case :: string

datatype pending_save = PendingCaseLaw | PendingCase intent

definition current_intent :: "notes_modal \<Rightarrow> intent" where
  "current_intent m = (if dataset_intent m = Some Create then Create else Update)"

definition ctx_or :: "string \<Rightarrow> string \<Rightarrow> string" where
  "ctx_or a b = (if a \<noteq> [] then a else b)"

definition saveCurrent_begin :: "selection \<Rightarrow> notes_modal \<Rightarrow> effect list + (request \<times> pending_save)" where
  "saveCurrent_begin sel m =
     (let i = current_intent m; payloadContent = editor_value m in
      case noteContext m of
        Some (CaseLawContext caseId) \<Rightarrow>
          if caseId = 0 then Inl [Alert MissingCaseLawId]
          else Inr (PostCaseLawNote caseId payloadContent, PendingCaseLaw)
      | other \<Rightarrow>
          let year = (case other of Some (CaseContext y mo c) \<Rightarrow> ctx_or y (sel_year sel)
                      | _ \<Rightarrow> sel_year sel);
              month = (case other of Some (CaseContext y mo c) \<Rightarrow> ctx_or mo (sel_month sel)
                      | _ \<Rightarrow> sel_month sel);
              cname = (case other of Some (CaseContext y mo c) \<Rightarrow> ctx_or c (sel_case sel)
                      | _ \<Rightarrow> sel_case sel)
          in if year = [] \<or> month = [] \<or> cname = [] then Inl [Alert SelectCaseFirst]
             else if i = Create then Inr (PostCreateNote year month cname payloadContent, PendingCase i)
             else Inr (PostNote year month cname payloadContent, PendingCase i))"

text \<open>
  The check both paths make on the answer: \<open>Inl\<close> is what the \<open>catch\<close> block alerts,
  \<open>Inr\<close> the reply of a success.  With a \<open>null\<close> body the property read throws.
\<close>

definition checked_reply :: "reply fetch_result \<Rightarrow> failure + reply" where
  "checked_reply r =
     (case r of
        Rejected \<Rightarrow> Inl (Thrown NetworkError)
      | Response status body \<Rightarrow>
          (case body of
             JsonNull \<Rightarrow> Inl (Thrown TypeError)
           | NotJson \<Rightarrow>
               if \<not> resp_ok status \<or> \<not> reply_ok empty_reply
               then Inl (msg_or_status (reply_msg empty_reply) status) else Inr empty_reply
           | JsonObject data \<Rightarrow>
               if \<not> resp_ok status \<or> \<not> reply_ok data
               then Inl (msg_or_status (reply_msg data) status) else Inr data))"

text \<open>The second part of \<open>saveCurrent\<close>, on the state the answer finds.\<close>

definition commit_buffer :: "notes_modal \<Rightarrow> notes_modal" where
  "commit_buffer m = m\<lparr>rawContent := editor_value m, originalContent := editor_value m\<rparr>"

definition finish_save :: "notes_modal \<Rightarrow> notes_modal" where
  "finish_save m = closeModal (setState View (m\<lparr>dataset_intent := Some Update\<rparr>))"

definition saveCurrent_settle :: "pending_save \<Rightarrow> reply fetch_result \<Rightarrow> notes_modal \<Rightarrow> notes_modal \<times> effect list" where
  "saveCurrent_settle p r m =
     (case checked_reply r of
        Inl f \<Rightarrow> (m, [Alert (SaveFailed f)])
      | Inr data \<Rightarrow>
          (case p of
             PendingCaseLaw \<Rightarrow>
               let m1 = commit_buffer m in
               (case noteContext m1 of
                  None \<Rightarrow> (m1, [Alert NotesSaved, Alert (SaveFailed (Thrown TypeError))])
                | Some (CaseLawContext caseId) \<Rightarrow>
                    (finish_save m1, [Alert NotesSaved, OnSaved (or_else (reply_summary data) [])])
                | Some (CaseContext y mo c) \<Rightarrow> (finish_save m1, [Alert NotesSaved]))
           | PendingCase i \<Rightarrow>
               (finish_save (commit_buffer m),
                [Alert (if i = Create then NoteCreated else NotesSaved), RefreshNoteButton])))"

text \<open>\<open>saveCurrent\<close> when nothing else happens before the answer arrives.\<close>

definition saveCurrent :: "selection \<Rightarrow> reply fetch_result \<Rightarrow> notes_modal \<Rightarrow> notes_modal \<times> effect list" where
  "saveCurrent sel r m =
     (case saveCurrent_begin sel m of
        Inl effs \<Rightarrow> (m, effs)
      | Inr (req, p) \<Rightarrow> saveCurrent_settle p r m)"

text \<open>
  The modal with its requests in flight.  The host delivers no click to a control that is
  hidden, disabled or inside the hidden modal, and no input to a read-only editor; the
  callers of \<open>openNotesModal\<close> always pass a context.
\<close>

record notes_system =
  modal :: notes_modal
  in_flight :: "pending_save list"

datatype notes_event =
    OpenNotes string intent note_context
  | EditClick
  | Input string
  | SaveClick selection
  | SaveSettled nat "reply fetch_result"
  | CancelClick
  | CloseClick

fun notes_step :: "notes_system \<Rightarrow> notes_event \<Rightarrow> notes_system" where
  "notes_step s (OpenNotes text i ctx) = s\<lparr>modal := openNotesWith text i (Some ctx) (modal s)\<rparr>"
| "notes_step s EditClick =
     (if modal_hidden (modal s) \<or> editBtn_hidden (modal s) then s
      else s\<lparr>modal := on_edit_click (modal s)\<rparr>)"
| "notes_step s (Input v) =
     (if modal_hidden (modal s) \<or> editor_readOnly (modal s) then s
      else s\<lparr>modal := on_input v (modal s)\<rparr>)"
| "notes_step s (SaveClick sel) =
     (if modal_hidden (modal s) \<or> saveBtn_hidden (modal s) \<or> saveBtn_disabled (modal s) then s
      else (case saveCurrent_begin sel (modal s) of
              Inl effs \<Rightarrow> s
            | Inr (req, p) \<Rightarrow> s\<lparr>in_flight := in_flight s @ [p]\<rparr>))"
| "notes_step s (SaveSettled n r) =
     (if n < length (in_flight s)
      then s\<lparr>modal := fst (saveCurrent_settle (in_flight s ! n) r (modal s)),
             in_flight := take n (in_flight s) @ drop (Suc n) (in_flight s)\<rparr>
      else s)"
| "notes_step s CancelClick =
     (if modal_hidden (modal s) \<or> cancel_hidden (modal s) then s
      else s\<lparr>modal := handleCancel (modal s)\<rparr>)"
| "notes_step s CloseClick =
     (if modal_hidden (modal s) then s else s\<lparr>modal := on_close_click (modal s)\<rparr>)"

definition notes_run :: "notes_system \<Rightarrow> notes_event list \<Rightarrow> notes_system" where
  "notes_run s evs = foldl notes_step s evs"

definition saveEnabled :: "notes_modal \<Rightarrow> bool" where
  "saveEnabled m \<longleftrightarrow> \<not> saveBtn_disabled m"

definition dirty :: "notes_modal \<Rightarrow> bool" where
  "dirty m \<longleftrightarrow> dataset_state m = Some Edit \<and> editor_value m \<noteq> originalContent m"

definition notes_inv :: "notes_modal \<Rightarrow> bool" where
  "notes_inv m \<longleftrightarrow>
     (saveEnabled m = dirty m)
     \<and> (noteContext m = None \<longrightarrow> modal_hidden m)
     \<and> (modal_hidden m \<longrightarrow> dataset_state m \<noteq> Some Edit)"



text \<open>
  \<open>bindGlobalNotesModalHandlers\<close> on the modal as the page's markup gives it: the three
  closure variables start empty, Save and Cancel are hidden, Edit is shown and Save is
  disabled.
\<close>

definition bindGlobalNotesModalHandlers :: "notes_modal \<Rightarrow> notes_modal" where
  "bindGlobalNotesModalHandlers markup =
     markup\<lparr>originalContent := [], rawContent := [], noteContext := None,
            saveBtn_hidden := True, cancel_hidden := True, editBtn_hidden := False,
            saveBtn_disabled := True\<rparr>"

definition plain_markup :: notes_modal where
  "plain_markup =
     \<lparr>modal_hidden = True, dataset_state = None, dataset_intent = None, editor_value = [],
      editor_readOnly = False, editor_displayed = True, saveBtn_disabled = False,
      saveBtn_hidden = False, cancel_hidden = False, editBtn_hidden = False,
      originalContent = [], rawContent = [], noteContext = None\<rparr>"



text \<open>A session used to exercise the editor: a case note is opened, edited and saved.\<close>

definition demo_context :: note_context where
  "demo_context = CaseContext ''2024'' ''Mar'' ''Doe v. Roe''"

definition demo_selection :: selection where
  "demo_selection = \<lparr>sel_year = ''2024'', sel_month = ''Mar'', sel_case = ''Doe v. Roe''\<rparr>"

definition ok_reply :: reply where
  "ok_reply = empty_reply\<lparr>reply_ok := True\<rparr>"

definition demo_editing :: notes_modal where
  "demo_editing =
     modal (notes_run \<lparr>modal = bindGlobalNotesModalHandlers plain_markup, in_flight = []\<rparr>
              [OpenNotes ''{}'' Update demo_context, EditClick, Input ''{ }''])"


section \<open>Results renderer and directory navigator\<close>

record searchResultRecord =
  rec_file :: string
  rec_path :: string
  rec_rel :: "string option"

text \<open>
  The children of the results host.  A result row shows the truncated name, carries the
  record's path and has a delete button for an administrator; the other rows are the
  placeholder texts, the rows of a directory level and the inline error.
\<close>

datatype row =
    ResultItem string string bool
  | TextRow string
  | UpRow string
  | FolderRow string string
  | ErrorRow js_error

record results_host =
  rows :: "row list"
  scrollTop :: nat

record dir_button =
  btn_active :: bool
  btn_text :: string
  btn_pressed :: bool

record dirSearchState =
  active :: bool
  previousScroll :: nat
  currentPath :: string

text \<open>
  The module's globals and the two elements the renderer looks up by id; an element that
  the page does not have is \<open>None\<close>.
\<close>

record page =
  results :: "results_host option"
  dirBtn :: "dir_button option"
  dirState :: dirSearchState
  lastRenderedResults :: "searchResultRecord list option"

definition buildResultItem :: "bool \<Rightarrow> searchResultRecord \<Rightarrow> row" where
  "buildResultItem isAdmin r = ResultItem (smartTruncate (rec_file r) 100) (rec_path r) isAdmin"

text \<open>\<open>cloneResults\<close>: a copy of an array, \<open>null\<close> for anything else.\<close>

definition cloneResults :: "searchResultRecord list option \<Rightarrow> searchResultRecord list option" where
  "cloneResults l = (case l of None \<Rightarrow> None | Some xs \<Rightarrow> Some (map (\<lambda>item. item) xs))"

definition button_off :: "dir_button \<Rightarrow> dir_button" where
  "button_off b = b\<lparr>btn_active := False, btn_text := ''Directory Search'', btn_pressed := False\<rparr>"

definition button_on :: "dir_button \<Rightarrow> dir_button" where
  "button_on b = b\<lparr>btn_active := True, btn_text := ''Exit Directory Search'', btn_pressed := True\<rparr>"

definition set_rows :: "row list \<Rightarrow> page \<Rightarrow> page" where
  "set_rows rs p = p\<lparr>results := map_option (\<lambda>h. h\<lparr>rows := rs\<rparr>) (results p)\<rparr>"

text \<open>The rows \<open>renderResults\<close> puts into the host for its argument.\<close>

definition rendered_rows :: "bool \<Rightarrow> searchResultRecord list option \<Rightarrow> row list" where
  "rendered_rows isAdmin l =
     (case l of
        None \<Rightarrow> [TextRow ''No results.'']
      | Some xs \<Rightarrow>
          if xs = [] then [TextRow ''No results.'']
          else map (buildResultItem isAdmin) xs)"

definition renderResults :: "bool \<Rightarrow> searchResultRecord list option \<Rightarrow> page \<Rightarrow> page" where
  "renderResults isAdmin l p =
     (case results p of
        None \<Rightarrow> p
      | Some host \<Rightarrow>
          let p1 = (if active (dirState p)
                    then p\<lparr>dirState := \<lparr>active = False, previousScroll = 0, currentPath = []\<rparr>,
                           dirBtn := map_option button_off (dirBtn p)\<rparr>
                    else p);
              p2 = p1\<lparr>lastRenderedResults := cloneResults l\<rparr>
          in set_rows (rendered_rows isAdmin l) p2)"

text \<open>
  \<open>showDirLevel\<close> around its \<open>await\<close>.  The first part returns at once when the mode is
  inactive or the host is missing; otherwise it records the path and asks for the listing.
\<close>

definition showDirLevel_begin :: "string \<Rightarrow> page \<Rightarrow> page \<times> request option" where
  "showDirLevel_begin relPath p =
     (if \<not> active (dirState p) then (p, None)
      else if results p = None then (p, None)
      else (p\<lparr>dirState := (dirState p)\<lparr>currentPath := relPath\<rparr>\<rparr>, Some (GetDirTree relPath)))"

record file_entry =
  entry_name :: string
  entry_path :: string

record dir_reply =
  reply_dirs :: "string list option"
  reply_files :: "file_entry list option"

definition list_or_empty :: "'a list option \<Rightarrow> 'a list" where
  "list_or_empty l = (case l of None \<Rightarrow> [] | Some xs \<Rightarrow> xs)"

definition level_rows :: "bool \<Rightarrow> string \<Rightarrow> dir_reply \<Rightarrow> row list" where
  "level_rows isAdmin relPath data =
     (if relPath \<noteq> [] then [UpRow relPath] else [])
     @ map (\<lambda>d. FolderRow (if relPath \<noteq> [] then relPath @ ''/'' @ d else d) d)
         (list_or_empty (reply_dirs data))
     @ map (\<lambda>f. buildResultItem isAdmin
                  \<lparr>rec_file = entry_name f, rec_path = entry_path f, rec_rel = Some (entry_name f)\<rparr>)
         (list_or_empty (reply_files data))
     @ (if list_or_empty (reply_dirs data) = [] \<and> list_or_empty (reply_files data) = []
        then [TextRow ''(empty)''] else [])"

text \<open>
  The second part, on the page the answer finds.  The status is not looked at.  A body
  that is not JSON counts as an empty object; a \<open>null\<close> body throws at the first property
  read, inside the \<open>try\<close>, and ends in the error row like a rejected fetch.
\<close>

definition showDirLevel_settle :: "bool \<Rightarrow> string \<Rightarrow> dir_reply fetch_result \<Rightarrow> page \<Rightarrow> page" where
  "showDirLevel_settle isAdmin relPath r p =
     (case r of
        Rejected \<Rightarrow>
          if \<not> active (dirState p) then p else set_rows [ErrorRow NetworkError] p
      | Response status body \<Rightarrow>
          if \<not> active (dirState p) then p
          else (case body of
                  JsonNull \<Rightarrow> set_rows [ErrorRow TypeError] p
                | NotJson \<Rightarrow>
                    set_rows (level_rows isAdmin relPath \<lparr>reply_dirs = None, reply_files = None\<rparr>) p
                | JsonObject data \<Rightarrow> set_rows (level_rows isAdmin relPath data) p))"

text \<open>
  The click handler of the Directory Search button.  Entering ends in the first part of
  \<open>showDirLevel('')\<close>, whose request (if any) is returned with the page.
\<close>

definition enter_dir :: "results_host \<Rightarrow> page \<Rightarrow> page \<times> request option" where
  "enter_dir host p =
     showDirLevel_begin []
       (set_rows [TextRow ''Loading directory tree...'']
          (p\<lparr>dirState := \<lparr>active = True, previousScroll = scrollTop host, currentPath = []\<rparr>,
             dirBtn := map_option button_on (dirBtn p)\<rparr>))"

text \<open>The exit branch up to its call of \<open>renderResults\<close>: the mode is left, the button reset.\<close>

definition leave_mode :: "page \<Rightarrow> page" where
  "leave_mode p =
     p\<lparr>dirState := (dirState p)\<lparr>active := False, currentPath := []\<rparr>,
       dirBtn := map_option button_off (dirBtn p)\<rparr>"

definition exit_dir :: "bool \<Rightarrow> page \<Rightarrow> page" where
  "exit_dir isAdmin p =
     (let p1 = leave_mode p;
          snapshot = cloneResults (lastRenderedResults p1);
          p2 = (case snapshot of
                  Some xs \<Rightarrow>
                    let p3 = renderResults isAdmin (Some xs) p1
                    in p3\<lparr>results := map_option (\<lambda>h. h\<lparr>scrollTop := previousScroll (dirState p3)\<rparr>)
                                      (results p3)\<rparr>
                | None \<Rightarrow> set_rows [TextRow ''Use the search tools above to view results.''] p1)
      in p2\<lparr>dirState := (dirState p2)\<lparr>previousScroll := 0\<rparr>\<rparr>)"

definition on_dir_click :: "bool \<Rightarrow> page \<Rightarrow> page \<times> request option" where
  "on_dir_click isAdmin p =
     (case results p of
        None \<Rightarrow> (p, None)
      | Some host \<Rightarrow>
          if \<not> active (dirState p) then enter_dir host p
          else (exit_dir isAdmin p, None))"

text \<open>
  The delete handler of a result row: nothing is sent unless the user confirms, and the
  answer of \<open>/api/delete-file\<close> either removes the row from the host or alerts.  \<open>pos\<close> is the place
  of the row among the host's children when the answer arrives, if it is still there.
\<close>

definition delete_click :: "bool \<Rightarrow> searchResultRecord \<Rightarrow> request option" where
  "delete_click confirmed r = (if \<not> confirmed then None else Some (PostDeleteFile (rec_path r)))"

definition delete_check :: "reply fetch_result \<Rightarrow> failure option" where
  "delete_check r =
     (case r of
        Rejected \<Rightarrow> Some (Thrown NetworkError)
      | Response status body \<Rightarrow>
          (case body of
             NotJson \<Rightarrow> Some (HttpStatus status)
           | JsonNull \<Rightarrow> if \<not> resp_ok status then Some (HttpStatus status) else Some (Thrown TypeError)
           | JsonObject data \<Rightarrow>
               if \<not> resp_ok status \<or> \<not> reply_ok data
               then Some (msg_or_status (reply_msg data) status)
               else None))"

definition remove_row :: "nat option \<Rightarrow> page \<Rightarrow> page" where
  "remove_row pos p =
     (case pos of
        None \<Rightarrow> p
      | Some n \<Rightarrow> p\<lparr>results := map_option (\<lambda>h. h\<lparr>rows := take n (rows h) @ drop (Suc n) (rows h)\<rparr>)
                                   (results p)\<rparr>)"

definition delete_settle :: "nat option \<Rightarrow> reply fetch_result \<Rightarrow> page \<Rightarrow> page \<times> effect list" where
  "delete_settle pos r p =
     (case delete_check r of
        Some f \<Rightarrow> (p, [Alert (DeleteFailed f)])
      | None \<Rightarrow> (remove_row pos p, []))"







text \<open>
  A page used to exercise the renderer: two records have been rendered for an
  administrator and the user has scrolled the results by 120.
\<close>

definition rec_a :: searchResultRecord where
  "rec_a = \<lparr>rec_file = ''petition.pdf'', rec_path = ''2024/Mar/Doe v. Roe/petition.pdf'', rec_rel = None\<rparr>"

definition rec_b :: searchResultRecord where
  "rec_b = \<lparr>rec_file = ''order.pdf'', rec_path = ''2024/Mar/Doe v. Roe/order.pdf'', rec_rel = None\<rparr>"

definition fresh_page :: page where
  "fresh_page =
     \<lparr>results = Some \<lparr>rows = [TextRow ''Use the search tools above to view results.''], scrollTop = 0\<rparr>,
      dirBtn = Some \<lparr>btn_active = False, btn_text = ''Directory Search'', btn_pressed = False\<rparr>,
      dirState = \<lparr>active = False, previousScroll = 0, currentPath = []\<rparr>,
      lastRenderedResults = None\<rparr>"

definition scrolled_to :: "nat \<Rightarrow> page \<Rightarrow> page" where
  "scrolled_to n p = p\<lparr>results := map_option (\<lambda>h. h\<lparr>scrollTop := n\<rparr>) (results p)\<rparr>"

definition searched_page :: page where
  "searched_page = scrolled_to 120 (renderResults True (Some [rec_a, rec_b]) fresh_page)"



section \<open>Case lookup: the note button\<close>

text \<open>
  \<open>getNoteState\<close> on the answer of \<open>GET /api/note/<year>/<month>/<case>\<close>.  A body that is
  not JSON counts as \<open>null\<close> here.  The default template is the constant
  \<open>NOTE_TEMPLATE_DEFAULT\<close>, taken as a parameter.
\<close>

record note_state =
  note_exists :: bool
  note_content :: string
  note_template :: string

definition getNoteState :: "string \<Rightarrow> reply fetch_result \<Rightarrow> note_state" where
  "getNoteState dflt r =
     (case r of
        Rejected \<Rightarrow> \<lparr>note_exists = False, note_content = [], note_template = dflt\<rparr>
      | Response status body \<Rightarrow>
          (case body of
             JsonObject data \<Rightarrow>
               if resp_ok status \<and> reply_ok data
               then \<lparr>note_exists = True, note_content = or_else (reply_content data) [],
                     note_template = or_else (reply_template data) dflt\<rparr>
               else \<lparr>note_exists = False, note_content = [],
                     note_template = or_else (reply_template data) dflt\<rparr>
           | _ \<Rightarrow> \<lparr>note_exists = False, note_content = [], note_template = dflt\<rparr>))"

text \<open>
  The invoice button and the note button of the manage form.  \<open>noteBtn_onclick\<close> says
  whether the click handler is installed.
\<close>

record case_actions =
  invoice_disabled :: bool
  noteBtn_visible :: bool
  noteBtn_hasNote :: bool
  noteBtn_intent :: "intent option"
  noteBtn_text :: string
  noteBtn_onclick :: bool

definition hasSelection :: "selection \<Rightarrow> bool" where
  "hasSelection sel \<longleftrightarrow> sel_year sel \<noteq> [] \<and> sel_month sel \<noteq> [] \<and> sel_case sel \<noteq> []"

definition hide_note_button :: "case_actions \<Rightarrow> case_actions" where
  "hide_note_button ca =
     ca\<lparr>noteBtn_visible := False, noteBtn_hasNote := False, noteBtn_intent := None,
        noteBtn_onclick := False\<rparr>"

text \<open>\<open>updateCaseActions\<close> up to its \<open>await\<close>, on the selection read at the call.\<close>

definition updateCaseActions_begin :: "selection \<Rightarrow> case_actions \<Rightarrow> case_actions \<times> request option" where
  "updateCaseActions_begin sel ca =
     (let ca1 = ca\<lparr>invoice_disabled := \<not> hasSelection sel\<rparr> in
      if \<not> hasSelection sel then (hide_note_button ca1, None)
      else (ca1, Some (GetNote (sel_year sel) (sel_month sel) (sel_case sel))))"

definition updateCaseActions_settle :: "string \<Rightarrow> reply fetch_result \<Rightarrow> case_actions \<Rightarrow> case_actions" where
  "updateCaseActions_settle dflt r ca =
     (let noteState = getNoteState dflt r in
      if \<not> note_exists noteState then hide_note_button ca
      else ca\<lparr>noteBtn_visible := True, noteBtn_hasNote := True, noteBtn_intent := Some Update,
              noteBtn_text := ''View / Edit Note.json'', noteBtn_onclick := True\<rparr>)"

text \<open>
  The click handler that \<open>updateCaseActions\<close> installs.  It asks for the note of the
  selection read at the click.  On the answer, with the selection read then: when the note
  does not exist it alerts and calls \<open>updateCaseActions\<close> (not awaited; its first part runs
  at once and its request, if any, is returned); otherwise it opens the editor.
\<close>

definition noteBtn_click_begin :: "selection \<Rightarrow> request" where
  "noteBtn_click_begin sel = GetNote (sel_year sel) (sel_month sel) (sel_case sel)"

definition noteBtn_click_settle ::
    "string \<Rightarrow> selection \<Rightarrow> reply fetch_result \<Rightarrow> case_actions \<Rightarrow> case_actions \<times> effect list \<times> request option" where
  "noteBtn_click_settle dflt sel r ca =
     (let currentState = getNoteState dflt r in
      if \<not> note_exists currentState
      then (fst (updateCaseActions_begin sel ca), [Alert NoteNotFound],
            snd (updateCaseActions_begin sel ca))
      else (ca, [OpenNotesModal (note_content currentState) Update
                   (CaseContext (sel_year sel) (sel_month sel) (sel_case sel))], None))"

section \<open>Case-name search and case-law search\<close>

record case_hit =
  hit_case :: string
  hit_year :: string
  hit_month :: string







definition visible_button :: case_actions where
  "visible_button =
     \<lparr>invoice_disabled = False, noteBtn_visible = True, noteBtn_hasNote = True,
      noteBtn_intent = Some Update, noteBtn_text = ''View / Edit Note.json'',
      noteBtn_onclick = True\<rparr>"

definition note_reply :: reply where
  "note_reply = empty_reply\<lparr>reply_ok := True, reply_content := Some ''{ Our Party: Doe }''\<rparr>"




section \<open>Further handlers and sessions\<close>


text \<open>
  The click handlers of the rows of a directory level.  The up row splits its path at the
  slashes, drops the last part and joins the rest, which is the text before the last
  slash; a folder row asks for the path it was built with.
\<close>

definition parent_path :: "string \<Rightarrow> string" where
  "parent_path relPath =
     (let i = lastIndexOf relPath (CHR ''/'') in if i = - 1 then [] else take (nat i) relPath)"

definition on_row_click :: "row \<Rightarrow> page \<Rightarrow> page \<times> request option" where
  "on_row_click r p =
     (case r of
        UpRow relPath \<Rightarrow> showDirLevel_begin (parent_path relPath) p
      | FolderRow newPath d \<Rightarrow> showDirLevel_begin newPath p
      | _ \<Rightarrow> (p, None))"

text \<open>
  A directory session: the mode is entered from the searched page, the root listing
  arrives, the user descends into the folder 2024 and, while that listing is pending,
  leaves the mode and enters it again.
\<close>

definition root_listing :: dir_reply where
  "root_listing = \<lparr>reply_dirs = Some [''2024''], reply_files = None\<rparr>"

definition year_listing :: dir_reply where
  "year_listing =
     \<lparr>reply_dirs = None,
      reply_files = Some [\<lparr>entry_name = ''order.pdf'', entry_path = ''2024/Mar/Doe v. Roe/order.pdf''\<rparr>]\<rparr>"

definition browsing_page :: page where
  "browsing_page =
     showDirLevel_settle True [] (Response 200 (JsonObject root_listing))
       (fst (on_dir_click True searched_page))"

definition descending_page :: page where
  "descending_page = fst (on_row_click (FolderRow ''2024'' ''2024'') browsing_page)"

definition left_page :: page where
  "left_page = fst (on_dir_click True descending_page)"

definition reentered_page :: page where
  "reentered_page = fst (on_dir_click True left_page)"

text \<open>
  A case-law session: the note of record 7 is empty, so the editor opens in the create
  posture, and the user types a note.
\<close>

definition caselaw_draft :: notes_modal where
  "caselaw_draft =
     on_input ''Bail granted.''
       (openNotesWith [] Create (Some (CaseLawContext 7))
          (bindGlobalNotesModalHandlers plain_markup))"

section \<open>Properties of the display names\<close>

lemmas trunc_eval = smartTruncate_def file_ext_def file_base_def lastIndexOf_def
  js_slice_from_def js_slice_def js_index_def Let_def ceil_half_def floor_half_def

lemma lastIndexOf_absent: "c \<notin> set s \<Longrightarrow> lastIndexOf s c = - 1"
  by (simp add: lastIndexOf_def)

lemma takeWhile_stops: "c \<in> set xs \<Longrightarrow> length (takeWhile (\<lambda>x. x \<noteq> c) xs) < length xs"
  by (induction xs) auto

lemma lastIndexOf_present:
  assumes "c \<in> set s"
  shows "0 \<le> lastIndexOf s c \<and> lastIndexOf s c < int (length s)"
proof -
  have "c \<in> set (rev s)" using assms by simp
  then have "length (takeWhile (\<lambda>x. x \<noteq> c) (rev s)) < length (rev s)"
    by (rule takeWhile_stops)
  then show ?thesis using assms by (simp add: lastIndexOf_def)
qed

lemma js_slice_prefix:
  "0 \<le> n \<Longrightarrow> n \<le> int (length s) \<Longrightarrow> js_slice s 0 n = take (nat n) s"
  by (simp add: js_slice_def js_index_def Let_def)

lemma js_slice_from_nonneg:
  "0 \<le> n \<Longrightarrow> n \<le> int (length s) \<Longrightarrow> js_slice_from s n = drop (nat n) s"
  by (simp add: js_slice_from_def js_slice_def js_index_def Let_def)

lemma js_slice_from_tail:
  "0 < n \<Longrightarrow> n \<le> int (length s) \<Longrightarrow> js_slice_from s (- n) = drop (length s - nat n) s"
  by (simp add: js_slice_from_def js_slice_def js_index_def Let_def nat_diff_distrib)

lemma len_take_int: "0 \<le> n \<Longrightarrow> n \<le> int (length xs) \<Longrightarrow> int (length (take (nat n) xs)) = n"
  by (simp add: min_def) linarith

lemma len_drop_int: "0 \<le> n \<Longrightarrow> n \<le> int (length xs) \<Longrightarrow> int (length (drop (length xs - nat n) xs)) = n"
  by simp

lemma base_ext_append: "file_base f @ file_ext f = f"
proof (cases "CHR ''.'' \<in> set f")
  case False
  then show ?thesis by (simp add: file_base_def file_ext_def lastIndexOf_absent)
next
  case True
  from lastIndexOf_present [OF True]
  show ?thesis
    by (simp add: file_base_def file_ext_def Let_def js_slice_prefix js_slice_from_nonneg)
qed

lemma split_at_last_dot:
  assumes "c \<in> set f"
  shows "\<exists>b r. f = b @ c # r \<and> c \<notin> set r \<and> lastIndexOf f c = int (length b)"
proof -
  let ?P = "\<lambda>x. x \<noteq> c"
  let ?tw = "takeWhile ?P (rev f)" and ?dw = "dropWhile ?P (rev f)"
  have "c \<in> set (rev f)" using assms by simp
  then have ne: "?dw \<noteq> []" by simp
  then have "\<not> ?P (hd ?dw)" by (rule hd_dropWhile)
  then obtain d where dw: "?dw = c # d" using ne by (cases ?dw) auto
  have "rev f = ?tw @ ?dw" by simp
  then have "rev (rev f) = rev (?tw @ c # d)" using dw by simp
  then have f: "f = rev d @ c # rev ?tw" by simp
  have nr: "c \<notin> set (rev ?tw)" using set_takeWhileD [of c ?P "rev f"] by auto
  have "length f = length d + 1 + length ?tw"
    using arg_cong [OF f, of length] by simp
  then have "lastIndexOf f c = int (length (rev d))"
    using assms by (simp add: lastIndexOf_def)
  with f nr show ?thesis by blast
qed

lemma file_ext_from_last_dot:
  assumes "CHR ''.'' \<in> set f"
  shows "\<exists>b r. f = b @ CHR ''.'' # r \<and> CHR ''.'' \<notin> set r
           \<and> file_base f = b \<and> file_ext f = CHR ''.'' # r"
proof -
  from split_at_last_dot [OF assms] obtain b r
    where f: "f = b @ CHR ''.'' # r" and r: "CHR ''.'' \<notin> set r"
      and i: "lastIndexOf f (CHR ''.'') = int (length b)" by blast
  have "file_base f = b"
    unfolding file_base_def Let_def i by (simp add: f js_slice_def js_index_def)
  moreover have "file_ext f = CHR ''.'' # r"
    unfolding file_ext_def Let_def i by (simp add: f js_slice_from_def js_slice_def js_index_def)
  ultimately show ?thesis using f r by blast
qed

lemma file_ext_no_dot: "CHR ''.'' \<notin> set f \<Longrightarrow> file_base f = f \<and> file_ext f = []"
  by (simp add: file_base_def file_ext_def lastIndexOf_def)

lemma length_base: "int (length (file_base f)) = int (length f) - int (length (file_ext f))"
proof -
  have "length (file_base f @ file_ext f) = length f" by (simp only: base_ext_append)
  then show ?thesis by simp
qed

lemma half_sum: "ceil_half k + floor_half k = k"
  unfolding ceil_half_def floor_half_def by presburger

lemma half_pos: "2 \<le> k \<Longrightarrow> 0 < ceil_half k \<and> 0 < floor_half k \<and> ceil_half k \<le> k \<and> floor_half k \<le> k"
  unfolding ceil_half_def floor_half_def by presburger

lemma smartTruncate_fits:
  "filename = [] \<or> int (length filename) \<le> maxLen \<Longrightarrow> smartTruncate filename maxLen = filename"
  by (simp add: smartTruncate_def)

lemma smartTruncate_shape:
  assumes "filename \<noteq> []" "maxLen < int (length filename)"
  shows "\<exists>h t. smartTruncate filename maxLen = h @ ''...'' @ t @ file_ext filename"
  using assms unfolding smartTruncate_def Let_def by (simp del: append_Cons) blast

lemma smartTruncate_cut:
  assumes long: "maxLen < int (length filename)"
    and room: "int (length (file_ext filename)) + 5 \<le> maxLen"
  shows "smartTruncate filename maxLen =
           take (nat (ceil_half (maxLen - int (length (file_ext filename)) - 3))) (file_base filename)
           @ ''...''
           @ drop (length (file_base filename) - nat (floor_half (maxLen - int (length (file_ext filename)) - 3))) (file_base filename)
           @ file_ext filename"
proof -
  let ?keep = "maxLen - int (length (file_ext filename)) - 3"
  have k: "2 \<le> ?keep" using room by simp
  have lb: "?keep + 3 < int (length (file_base filename))"
    using long by (simp add: length_base)
  note hp = half_pos [OF k]
  have ne: "filename \<noteq> []" using long room by auto
  have s1: "js_slice (file_base filename) 0 (ceil_half ?keep) = take (nat (ceil_half ?keep)) (file_base filename)"
    using hp lb by (intro js_slice_prefix) auto
  have s2: "js_slice_from (file_base filename) (- floor_half ?keep)
        = drop (length (file_base filename) - nat (floor_half ?keep)) (file_base filename)"
    using hp lb by (intro js_slice_from_tail) auto
  show ?thesis
    using long ne unfolding smartTruncate_def Let_def s1 s2 by simp
qed

lemma smartTruncate_length:
  assumes long: "maxLen < int (length filename)"
    and room: "int (length (file_ext filename)) + 5 \<le> maxLen"
  shows "int (length (smartTruncate filename maxLen)) = maxLen"
proof -
  let ?keep = "maxLen - int (length (file_ext filename)) - 3"
  have k: "2 \<le> ?keep" using room by simp
  have lb: "?keep + 3 < int (length (file_base filename))"
    using long by (simp add: length_base)
  note hp = half_pos [OF k]
  have l1: "int (length (take (nat (ceil_half ?keep)) (file_base filename))) = ceil_half ?keep"
    using hp lb by (intro len_take_int) auto
  have l2: "int (length (drop (length (file_base filename) - nat (floor_half ?keep)) (file_base filename)))
      = floor_half ?keep"
    using hp lb by (intro len_drop_int) auto
  have "int (length (smartTruncate filename maxLen)) = ceil_half ?keep + 3 + floor_half ?keep + int (length (file_ext filename))"
    unfolding smartTruncate_cut [OF long room] length_append of_nat_add l1 l2 by simp
  also have "\<dots> = maxLen" using half_sum [of ?keep] by simp
  finally show ?thesis .
qed

lemma smartTruncate_idem_room:
  assumes "int (length (file_ext s)) + 5 \<le> m \<or> int (length s) \<le> m"
  shows "smartTruncate (smartTruncate s m) m = smartTruncate s m"
proof (cases "int (length s) \<le> m")
  case True
  then show ?thesis by (simp add: smartTruncate_fits)
next
  case False
  with assms have "int (length (smartTruncate s m)) = m"
    by (intro smartTruncate_length) auto
  then show ?thesis by (simp add: smartTruncate_fits)
qed

lemma js_slice_head: "js_slice s 0 e = take (nat (js_index (int (length s)) e)) s"
  by (simp add: js_slice_def js_index_def Let_def)

lemma js_slice_from_drop: "js_slice_from s b = drop (nat (js_index (int (length s)) b)) s"
proof -
  have "0 \<le> js_index (int (length s)) b" "js_index (int (length s)) b \<le> int (length s)"
    by (simp_all add: js_index_def)
  then show ?thesis
    by (simp add: js_slice_from_def js_slice_def Let_def js_index_def [of _ "int (length s)"])
qed

lemma smartTruncate_slices:
  assumes "filename \<noteq> []" "maxLen < int (length filename)"
  shows "smartTruncate filename maxLen
           = take (nat (js_index (int (length (file_base filename)))
                          (ceil_half (maxLen - int (length (file_ext filename)) - 3))))
               (file_base filename)
             @ ''...''
             @ drop (nat (js_index (int (length (file_base filename)))
                            (- floor_half (maxLen - int (length (file_ext filename)) - 3))))
                 (file_base filename)
             @ file_ext filename"
proof -
  have "smartTruncate filename maxLen
      = js_slice (file_base filename) 0 (ceil_half (maxLen - int (length (file_ext filename)) - 3))
        @ ''...''
        @ js_slice_from (file_base filename) (- floor_half (maxLen - int (length (file_ext filename)) - 3))
        @ file_ext filename"
    using assms by (simp add: smartTruncate_def Let_def)
  then show ?thesis unfolding js_slice_head js_slice_from_drop .
qed

text \<open>
  Claim C3, as amended.  \<open>smartTruncate\<close> returns the name unchanged when it is empty or its
  length is at most the maximum.  Otherwise the result is a head slice of the base name
  (its first \<open>n\<close> characters), the literal \<open>...\<close>, a tail slice of the base name (the base
  without its first \<open>k\<close> characters) and the extension (the text from the last dot, see
  \<open>file_ext_from_last_dot\<close>), so the extension always ends the result; \<open>n\<close> and \<open>k\<close> are
  the indices \<open>ceil(keep/2)\<close> and \<open>-floor(keep/2)\<close> as \<open>slice\<close> clamps them to the base, with
  \<open>keep\<close> the maximum less the extension's length less 3.  When the maximum leaves room for the extension,
  the ellipsis and two more characters (extension length + 5 at most the maximum), the
  head is the first \<open>ceil(keep/2)\<close> characters of the base, the tail its last
  \<open>floor(keep/2)\<close> characters, and the result is exactly as long as the maximum.
\<close>

theorem smartTruncate_amended:
  "(filename = [] \<or> int (length filename) \<le> maxLen \<longrightarrow> smartTruncate filename maxLen = filename)
   \<and> (filename \<noteq> [] \<and> maxLen < int (length filename) \<longrightarrow>
        smartTruncate filename maxLen
          = take (nat (js_index (int (length (file_base filename)))
                         (ceil_half (maxLen - int (length (file_ext filename)) - 3))))
              (file_base filename)
            @ ''...''
            @ drop (nat (js_index (int (length (file_base filename)))
                           (- floor_half (maxLen - int (length (file_ext filename)) - 3))))
                (file_base filename)
            @ file_ext filename)
   \<and> (maxLen < int (length filename) \<and> int (length (file_ext filename)) + 5 \<le> maxLen \<longrightarrow>
        smartTruncate filename maxLen =
          take (nat (ceil_half (maxLen - int (length (file_ext filename)) - 3))) (file_base filename)
          @ ''...''
          @ drop (length (file_base filename)
                   - nat (floor_half (maxLen - int (length (file_ext filename)) - 3)))
              (file_base filename)
          @ file_ext filename
        \<and> int (length (smartTruncate filename maxLen)) = maxLen)"
proof (intro conjI impI)
  assume "filename = [] \<or> int (length filename) \<le> maxLen"
  then show "smartTruncate filename maxLen = filename" by (rule smartTruncate_fits)
next
  assume "filename \<noteq> [] \<and> maxLen < int (length filename)"
  then show "smartTruncate filename maxLen
          = take (nat (js_index (int (length (file_base filename)))
                         (ceil_half (maxLen - int (length (file_ext filename)) - 3))))
              (file_base filename)
            @ ''...''
            @ drop (nat (js_index (int (length (file_base filename)))
                           (- floor_half (maxLen - int (length (file_ext filename)) - 3))))
                (file_base filename)
            @ file_ext filename"
    using smartTruncate_slices by simp
next
  assume a: "maxLen < int (length filename) \<and> int (length (file_ext filename)) + 5 \<le> maxLen"
  then show "smartTruncate filename maxLen =
          take (nat (ceil_half (maxLen - int (length (file_ext filename)) - 3))) (file_base filename)
          @ ''...''
          @ drop (length (file_base filename)
                   - nat (floor_half (maxLen - int (length (file_ext filename)) - 3)))
              (file_base filename)
          @ file_ext filename"
    using smartTruncate_cut by simp
  from a show "int (length (smartTruncate filename maxLen)) = maxLen"
    using smartTruncate_length by simp
qed

theorem smartTruncate_amended_witness:
  "int (length ''judgment_of_the_high_court.pdf'') > 20
   \<and> int (length (file_ext ''judgment_of_the_high_court.pdf'')) + 5 \<le> 20
   \<and> smartTruncate ''judgment_of_the_high_court.pdf'' 20 = ''judgmen..._court.pdf''
   \<and> int (length (smartTruncate ''judgment_of_the_high_court.pdf'' 20)) = 20
   \<and> smartTruncate ''brief.txt'' 20 = ''brief.txt''"
proof -
  have e: "file_ext ''judgment_of_the_high_court.pdf'' = ''.pdf''"
    by (simp add: trunc_eval)
  have b: "file_base ''judgment_of_the_high_court.pdf'' = ''judgment_of_the_high_court''"
    by (simp add: trunc_eval)
  have c: "ceil_half 13 = 7" "floor_half 13 = 6"
    by (simp_all add: ceil_half_def floor_half_def)
  have h: "20 < int (length ''judgment_of_the_high_court.pdf'')
      \<and> int (length (file_ext ''judgment_of_the_high_court.pdf'')) + 5 \<le> 20"
    by (simp add: e)
  have s: "''brief.txt'' = [] \<or> int (length ''brief.txt'') \<le> 20" by simp
  note long = smartTruncate_amended [of "''judgment_of_the_high_court.pdf''" 20,
      THEN conjunct2, THEN conjunct2, rule_format, OF h]
  note short = smartTruncate_amended [of "''brief.txt''" 20, THEN conjunct1, rule_format, OF s]
  have "smartTruncate ''judgment_of_the_high_court.pdf'' 20 = ''judgmen..._court.pdf''"
    using long [THEN conjunct1] by (simp add: e b c)
  then show ?thesis using h long [THEN conjunct2] short by simp
qed

text \<open>
  Claim C3 as stated fails: the extension of \<open>notes.markdown\<close> has nine characters, so no
  result can both end with it and stay within a maximum of eight; the code keeps the
  extension and returns eighteen characters.
\<close>

theorem smartTruncate_length_counterexample:
  "smartTruncate ''notes.markdown'' 8 = ''not...tes.markdown''
   \<and> \<not> int (length (smartTruncate ''notes.markdown'' 8)) \<le> 8"
  by (simp add: trunc_eval)

text \<open>
  Claim C8.  With the maximum of 100 that the row builder passes, a name of 111 characters
  whose last dot is followed by 96 characters leaves \<open>keep = 0\<close>; the tail slice
  \<open>base.slice(-0)\<close> is then the whole base name, the result is longer than the input, and
  truncating it again prepends another ellipsis.
\<close>

theorem smartTruncate_not_idempotent_at_100:
  "smartTruncate (smartTruncate
      ''Order dt 05.03.2024 in Crl M C 1187 of 2023 Ramesh Kumar v State of Kerala and others - certified copy of order'' 100) 100
    \<noteq> smartTruncate
      ''Order dt 05.03.2024 in Crl M C 1187 of 2023 Ramesh Kumar v State of Kerala and others - certified copy of order'' 100
   \<and> smartTruncate
      ''Order dt 05.03.2024 in Crl M C 1187 of 2023 Ramesh Kumar v State of Kerala and others - certified copy of order'' 100
     = ''...Order dt 05.03.2024 in Crl M C 1187 of 2023 Ramesh Kumar v State of Kerala and others - certified copy of order''"
proof -
  have once: "smartTruncate
      ''Order dt 05.03.2024 in Crl M C 1187 of 2023 Ramesh Kumar v State of Kerala and others - certified copy of order'' 100
     = ''...Order dt 05.03.2024 in Crl M C 1187 of 2023 Ramesh Kumar v State of Kerala and others - certified copy of order''"
    by (simp add: trunc_eval)
  have twice: "smartTruncate
      ''...Order dt 05.03.2024 in Crl M C 1187 of 2023 Ramesh Kumar v State of Kerala and others - certified copy of order'' 100
     = ''......Order dt 05.03.2024 in Crl M C 1187 of 2023 Ramesh Kumar v State of Kerala and others - certified copy of order''"
    by (simp add: trunc_eval)
  show ?thesis unfolding once twice by simp
qed

section \<open>Properties of the year picker\<close>














section \<open>Properties of the note editor\<close>

lemmas modal_defs = updateDirtyState_def setState_def openModal_def closeModal_def
  openNotesWith_def on_edit_click_def on_input_def handleCancel_def on_close_click_def
  commit_buffer_def finish_save_def saveEnabled_def dirty_def

lemma inv_open: "notes_inv (openNotesWith text i (Some ctx) m)"
  by (simp add: notes_inv_def modal_defs Let_def)

lemma inv_edit: "notes_inv m \<Longrightarrow> \<not> modal_hidden m \<Longrightarrow> notes_inv (on_edit_click m)"
  by (simp add: notes_inv_def modal_defs Let_def)

lemma inv_input: "notes_inv m \<Longrightarrow> \<not> modal_hidden m \<Longrightarrow> notes_inv (on_input v m)"
  by (auto simp add: notes_inv_def modal_defs Let_def)

lemma inv_cancel: "notes_inv m \<Longrightarrow> notes_inv (handleCancel m)"
  by (auto simp add: notes_inv_def modal_defs Let_def)

lemma inv_close: "notes_inv m \<Longrightarrow> notes_inv (on_close_click m)"
  by (simp add: notes_inv_def modal_defs Let_def)

lemma inv_finish: "notes_inv (finish_save m)"
  by (simp add: notes_inv_def modal_defs Let_def)

lemma inv_settle: "notes_inv m \<Longrightarrow> notes_inv (fst (saveCurrent_settle p r m))"
proof (cases "checked_reply r")
  case (Inl f)
  then show "notes_inv m \<Longrightarrow> ?thesis" by (simp add: saveCurrent_settle_def)
next
  case (Inr data)
  assume inv: "notes_inv m"
  show ?thesis
  proof (cases p)
    case (PendingCase i)
    then show ?thesis using Inr by (simp add: saveCurrent_settle_def inv_finish)
  next
    case PendingCaseLaw
    show ?thesis
    proof (cases "noteContext m")
      case None
      then have "modal_hidden m" "dataset_state m \<noteq> Some Edit" "saveBtn_disabled m"
        using inv by (auto simp: notes_inv_def saveEnabled_def dirty_def)
      then have "notes_inv (commit_buffer m)"
        using inv by (simp add: notes_inv_def modal_defs)
      then show ?thesis using Inr PendingCaseLaw None
        by (simp add: saveCurrent_settle_def commit_buffer_def Let_def)
    next
      case (Some c)
      then show ?thesis using Inr PendingCaseLaw
        by (cases c) (simp_all add: saveCurrent_settle_def commit_buffer_def Let_def inv_finish)
    qed
  qed
qed

lemma inv_step: "notes_inv (modal s) \<Longrightarrow> notes_inv (modal (notes_step s e))"
proof (cases e)
  case (SaveClick sel)
  then show "notes_inv (modal s) \<Longrightarrow> ?thesis"
    by (auto split: sum.splits)
qed (simp_all add: inv_open inv_edit inv_input inv_cancel inv_close inv_settle)

lemma notes_run_snoc: "notes_run s (evs @ [e]) = notes_step (notes_run s evs) e"
  by (simp add: notes_run_def)

lemma inv_run: "notes_inv (modal s) \<Longrightarrow> notes_inv (modal (notes_run s evs))"
  by (induction evs rule: rev_induct) (simp_all add: notes_run_snoc inv_step, simp add: notes_run_def)

lemma inv_run_open: "notes_inv (modal (notes_run s (OpenNotes text i ctx # evs)))"
proof -
  have "notes_run s (OpenNotes text i ctx # evs) = notes_run (notes_step s (OpenNotes text i ctx)) evs"
    by (simp add: notes_run_def)
  then show ?thesis by (simp add: inv_run inv_open)
qed

lemma checked_reply_Inr:
  "checked_reply r = Inr data \<longleftrightarrow> (\<exists>status. r = Response status (JsonObject data) \<and> resp_ok status \<and> reply_ok data)"
  by (auto simp: checked_reply_def empty_reply_def split: fetch_result.splits json_body.splits)

lemma input_recomputes:
  "saveEnabled (on_input v m) \<longleftrightarrow> dataset_state m = Some Edit \<and> v \<noteq> originalContent m"
  by (simp add: modal_defs)

lemma settle_success_fields:
  assumes "checked_reply r = Inr data" "noteContext m \<noteq> None \<or> p \<noteq> PendingCaseLaw"
  shows "originalContent (fst (saveCurrent_settle p r m)) = editor_value m
       \<and> rawContent (fst (saveCurrent_settle p r m)) = editor_value m
       \<and> dataset_intent (fst (saveCurrent_settle p r m)) = Some Update
       \<and> dataset_state (fst (saveCurrent_settle p r m)) = Some View
       \<and> modal_hidden (fst (saveCurrent_settle p r m))
       \<and> noteContext (fst (saveCurrent_settle p r m)) = None
       \<and> \<not> saveEnabled (fst (saveCurrent_settle p r m))"
  using assms
  by (auto simp: saveCurrent_settle_def modal_defs Let_def split: pending_save.splits option.splits note_context.splits)

lemma settle_failure:
  "checked_reply r = Inl f \<Longrightarrow> saveCurrent_settle p r m = (m, [Alert (SaveFailed f)])"
  by (simp add: saveCurrent_settle_def)

lemma begin_request:
  assumes "saveCurrent_begin sel m = Inr (req, p)"
  shows "(\<exists>caseId. noteContext m = Some (CaseLawContext caseId) \<and> caseId \<noteq> 0
            \<and> req = PostCaseLawNote caseId (editor_value m) \<and> p = PendingCaseLaw)
       \<or> ((\<forall>caseId. noteContext m \<noteq> Some (CaseLawContext caseId))
            \<and> p = PendingCase (current_intent m)
            \<and> (\<exists>y mo c. y \<noteq> [] \<and> mo \<noteq> [] \<and> c \<noteq> [] \<and>
                  req = (if current_intent m = Create then PostCreateNote y mo c (editor_value m)
                         else PostNote y mo c (editor_value m))))"
  using assms
  by (auto simp: saveCurrent_begin_def Let_def split: option.splits note_context.splits if_splits)

lemma begin_alert:
  assumes "saveCurrent_begin sel m = Inl effs"
  shows "effs = [Alert MissingCaseLawId] \<or> effs = [Alert SelectCaseFirst]"
  using assms
  by (auto simp: saveCurrent_begin_def Let_def split: option.splits note_context.splits if_splits)

lemma setState_recomputes:
  "saveEnabled (setState st m) \<longleftrightarrow> st = Edit \<and> rawContent m \<noteq> originalContent m"
  by (cases st) (simp_all add: modal_defs Let_def)

text \<open>
  Claim C4.  After the modal has been opened, whatever events follow (edits, input, saves
  and their answers in any order, cancels, closes, reopenings), the Save button is enabled
  exactly when the modal is in state \<open>edit\<close> and the editor's text differs from
  \<open>originalContent\<close>.  Every input event and every state transition recomputes it, and a
  save that succeeds commits the editor's text as \<open>originalContent\<close> and leaves Save
  disabled.
\<close>

theorem save_enabled_iff_dirty:
  "saveEnabled (modal (notes_run s (OpenNotes raw i ctx # evs)))
     = (dataset_state (modal (notes_run s (OpenNotes raw i ctx # evs))) = Some Edit
        \<and> editor_value (modal (notes_run s (OpenNotes raw i ctx # evs)))
            \<noteq> originalContent (modal (notes_run s (OpenNotes raw i ctx # evs))))
   \<and> saveEnabled (on_input v m) = (dataset_state m = Some Edit \<and> v \<noteq> originalContent m)
   \<and> saveEnabled (setState st m) = (st = Edit \<and> rawContent m \<noteq> originalContent m)
   \<and> (saveCurrent_begin sel m = Inr (req, p) \<and> checked_reply r = Inr data \<longrightarrow>
        \<not> saveEnabled (fst (saveCurrent sel r m))
        \<and> originalContent (fst (saveCurrent sel r m)) = editor_value m)"
proof (intro conjI impI)
  show "saveEnabled (modal (notes_run s (OpenNotes raw i ctx # evs)))
     = (dataset_state (modal (notes_run s (OpenNotes raw i ctx # evs))) = Some Edit
        \<and> editor_value (modal (notes_run s (OpenNotes raw i ctx # evs)))
            \<noteq> originalContent (modal (notes_run s (OpenNotes raw i ctx # evs))))"
    using inv_run_open [of s raw i ctx evs] by (simp add: notes_inv_def dirty_def)
next
  show "saveEnabled (on_input v m) = (dataset_state m = Some Edit \<and> v \<noteq> originalContent m)"
    by (rule input_recomputes)
next
  show "saveEnabled (setState st m) = (st = Edit \<and> rawContent m \<noteq> originalContent m)"
    by (rule setState_recomputes)
next
  assume a: "saveCurrent_begin sel m = Inr (req, p) \<and> checked_reply r = Inr data"
  then have ctx: "noteContext m \<noteq> None \<or> p \<noteq> PendingCaseLaw"
    using begin_request [of sel m req p] by auto
  from a have run: "saveCurrent sel r m = saveCurrent_settle p r m"
    by (simp add: saveCurrent_def)
  from a settle_success_fields [OF _ ctx, of r data]
  show "\<not> saveEnabled (fst (saveCurrent sel r m))"
    and "originalContent (fst (saveCurrent sel r m)) = editor_value m"
    unfolding run by simp_all
qed

lemma demo_editing_eval:
  "demo_editing =
     \<lparr>modal_hidden = False, dataset_state = Some Edit, dataset_intent = Some Update,
      editor_value = ''{ }'', editor_readOnly = False, editor_displayed = True,
      saveBtn_disabled = False, saveBtn_hidden = False, cancel_hidden = False,
      editBtn_hidden = True, originalContent = ''{}'', rawContent = ''{}'',
      noteContext = Some demo_context\<rparr>"
  by (simp add: demo_editing_def notes_run_def bindGlobalNotesModalHandlers_def plain_markup_def
      modal_defs Let_def)

lemma demo_begin:
  "saveCurrent_begin demo_selection demo_editing
     = Inr (PostNote ''2024'' ''Mar'' ''Doe v. Roe'' ''{ }'', PendingCase Update)"
  by (simp add: demo_editing_eval saveCurrent_begin_def demo_context_def demo_selection_def
      current_intent_def ctx_or_def Let_def)

lemma demo_reply: "checked_reply (Response 200 (JsonObject ok_reply)) = Inr ok_reply"
  by (simp add: checked_reply_def ok_reply_def empty_reply_def resp_ok_def)

theorem save_enabled_iff_dirty_witness:
  "saveEnabled demo_editing
   \<and> saveCurrent_begin demo_selection demo_editing
        = Inr (PostNote ''2024'' ''Mar'' ''Doe v. Roe'' ''{ }'', PendingCase Update)
   \<and> checked_reply (Response 200 (JsonObject ok_reply)) = Inr ok_reply
   \<and> \<not> saveEnabled (fst (saveCurrent demo_selection (Response 200 (JsonObject ok_reply)) demo_editing))
   \<and> originalContent (fst (saveCurrent demo_selection (Response 200 (JsonObject ok_reply)) demo_editing))
        = ''{ }''"
proof -
  note t = save_enabled_iff_dirty
    [where s = "\<lparr>modal = bindGlobalNotesModalHandlers plain_markup, in_flight = []\<rparr>"
       and raw = "''{}''" and i = Update and ctx = demo_context
       and evs = "[EditClick, Input ''{ }'']" and sel = demo_selection and m = demo_editing
       and req = "PostNote ''2024'' ''Mar'' ''Doe v. Roe'' ''{ }''" and p = "PendingCase Update"
       and r = "Response 200 (JsonObject ok_reply)" and data = ok_reply]
  have e: "saveEnabled demo_editing"
    using t [THEN conjunct1] unfolding demo_editing_def [symmetric]
    by (simp add: demo_editing_eval)
  have "\<not> saveEnabled (fst (saveCurrent demo_selection (Response 200 (JsonObject ok_reply)) demo_editing))
        \<and> originalContent (fst (saveCurrent demo_selection (Response 200 (JsonObject ok_reply)) demo_editing))
            = editor_value demo_editing"
    using t [THEN conjunct2, THEN conjunct2, THEN conjunct2] demo_begin demo_reply by blast
  then show ?thesis using e demo_begin demo_reply by (simp add: demo_editing_eval)
qed

text \<open>
  The save whose answer finds the modal as the click left it.  When \<open>saveCurrent\<close>
  sends its request (to the case-law backend for a case-law
  context, else to the create or update backend of the case note) and the answer is 2xx
  with a truthy \<open>ok\<close>, the editor's text becomes \<open>rawContent\<close> and \<open>originalContent\<close>, the
  intent is \<open>update\<close>, the state is \<open>view\<close> and the modal is hidden.  In every other case
  (a validation alert before the request, a rejected fetch, a non-2xx status, a body that
  is not JSON, is \<open>null\<close> or lacks a truthy \<open>ok\<close>) the modal's state is exactly what it was
  and one alert has been shown; a failed answer leaves unchanged whatever state it finds.
\<close>

theorem saveCurrent_commits_or_leaves:
  "(saveCurrent_begin sel m = Inr (req, p) \<and> r = Response status (JsonObject data)
      \<and> resp_ok status \<and> reply_ok data \<longrightarrow>
        originalContent (fst (saveCurrent sel r m)) = editor_value m
        \<and> rawContent (fst (saveCurrent sel r m)) = editor_value m
        \<and> dataset_intent (fst (saveCurrent sel r m)) = Some Update
        \<and> dataset_state (fst (saveCurrent sel r m)) = Some View
        \<and> modal_hidden (fst (saveCurrent sel r m))
        \<and> (case noteContext m of
              Some (CaseLawContext caseId) \<Rightarrow> req = PostCaseLawNote caseId (editor_value m)
            | _ \<Rightarrow> (\<exists>y mo c. req = (if current_intent m = Create
                                      then PostCreateNote y mo c (editor_value m)
                                      else PostNote y mo c (editor_value m)))))
   \<and> (\<not> (\<exists>req p status data. saveCurrent_begin sel m = Inr (req, p)
            \<and> r = Response status (JsonObject data) \<and> resp_ok status \<and> reply_ok data) \<longrightarrow>
        fst (saveCurrent sel r m) = m
        \<and> (snd (saveCurrent sel r m) = [Alert MissingCaseLawId]
            \<or> snd (saveCurrent sel r m) = [Alert SelectCaseFirst]
            \<or> (\<exists>f. snd (saveCurrent sel r m) = [Alert (SaveFailed f)])))
   \<and> (checked_reply r = Inl f \<longrightarrow> saveCurrent_settle p' r m' = (m', [Alert (SaveFailed f)]))"
proof (intro conjI impI)
  assume a: "saveCurrent_begin sel m = Inr (req, p) \<and> r = Response status (JsonObject data)
      \<and> resp_ok status \<and> reply_ok data"
  then have ok: "checked_reply r = Inr data" by (auto simp: checked_reply_Inr)
  from a have ctx: "noteContext m \<noteq> None \<or> p \<noteq> PendingCaseLaw"
    using begin_request [of sel m req p] by auto
  from a have run: "saveCurrent sel r m = saveCurrent_settle p r m"
    by (simp add: saveCurrent_def)
  note f = settle_success_fields [OF ok ctx]
  show "originalContent (fst (saveCurrent sel r m)) = editor_value m"
    and "rawContent (fst (saveCurrent sel r m)) = editor_value m"
    and "dataset_intent (fst (saveCurrent sel r m)) = Some Update"
    and "dataset_state (fst (saveCurrent sel r m)) = Some View"
    and "modal_hidden (fst (saveCurrent sel r m))"
    unfolding run using f by simp_all
  from a begin_request [of sel m req p]
  show "case noteContext m of
          Some (CaseLawContext caseId) \<Rightarrow> req = PostCaseLawNote caseId (editor_value m)
        | _ \<Rightarrow> (\<exists>y mo c. req = (if current_intent m = Create
                                  then PostCreateNote y mo c (editor_value m)
                                  else PostNote y mo c (editor_value m)))"
    by (auto split: option.splits note_context.splits)
next
  assume n: "\<not> (\<exists>req p status data. saveCurrent_begin sel m = Inr (req, p)
            \<and> r = Response status (JsonObject data) \<and> resp_ok status \<and> reply_ok data)"
  show "fst (saveCurrent sel r m) = m"
  proof (cases "saveCurrent_begin sel m")
    case (Inl effs)
    then show ?thesis by (simp add: saveCurrent_def)
  next
    case (Inr rp)
    obtain req p where rp: "rp = (req, p)" by (cases rp)
    with n Inr have "\<nexists>data. checked_reply r = Inr data" by (auto simp: checked_reply_Inr)
    then obtain f where "checked_reply r = Inl f" by (cases "checked_reply r") auto
    then show ?thesis using Inr rp by (simp add: saveCurrent_def settle_failure)
  qed
  show "snd (saveCurrent sel r m) = [Alert MissingCaseLawId]
            \<or> snd (saveCurrent sel r m) = [Alert SelectCaseFirst]
            \<or> (\<exists>f. snd (saveCurrent sel r m) = [Alert (SaveFailed f)])"
  proof (cases "saveCurrent_begin sel m")
    case (Inl effs)
    then show ?thesis using begin_alert [OF Inl] by (auto simp add: saveCurrent_def)
  next
    case (Inr rp)
    obtain req p where rp: "rp = (req, p)" by (cases rp)
    with n Inr have "\<nexists>data. checked_reply r = Inr data" by (auto simp: checked_reply_Inr)
    then obtain f where "checked_reply r = Inl f" by (cases "checked_reply r") auto
    then show ?thesis using Inr rp by (simp add: saveCurrent_def settle_failure)
  qed
next
  assume "checked_reply r = Inl f"
  then show "saveCurrent_settle p' r m' = (m', [Alert (SaveFailed f)])"
    by (rule settle_failure)
qed

theorem saveCurrent_commits_or_leaves_witness:
  "resp_ok 200 \<and> reply_ok ok_reply
   \<and> originalContent (fst (saveCurrent demo_selection (Response 200 (JsonObject ok_reply)) demo_editing)) = ''{ }''
   \<and> dataset_intent (fst (saveCurrent demo_selection (Response 200 (JsonObject ok_reply)) demo_editing)) = Some Update
   \<and> dataset_state (fst (saveCurrent demo_selection (Response 200 (JsonObject ok_reply)) demo_editing)) = Some View
   \<and> modal_hidden (fst (saveCurrent demo_selection (Response 200 (JsonObject ok_reply)) demo_editing))
   \<and> fst (saveCurrent demo_selection (Response 500 (JsonObject ok_reply)) demo_editing) = demo_editing
   \<and> snd (saveCurrent demo_selection (Response 500 (JsonObject ok_reply)) demo_editing)
        = [Alert (SaveFailed (HttpStatus 500))]"
proof -
  have h: "saveCurrent_begin demo_selection demo_editing
             = Inr (PostNote ''2024'' ''Mar'' ''Doe v. Roe'' ''{ }'', PendingCase Update)
           \<and> Response 200 (JsonObject ok_reply) = Response 200 (JsonObject ok_reply)
           \<and> resp_ok 200 \<and> reply_ok ok_reply"
    by (simp add: demo_begin resp_ok_def ok_reply_def)
  note good = saveCurrent_commits_or_leaves
    [where sel = demo_selection and m = demo_editing
       and req = "PostNote ''2024'' ''Mar'' ''Doe v. Roe'' ''{ }''" and p = "PendingCase Update"
       and r = "Response 200 (JsonObject ok_reply)" and status = 200 and data = ok_reply,
     THEN conjunct1, rule_format, OF h]
  have n: "\<not> (\<exists>req p status data. saveCurrent_begin demo_selection demo_editing = Inr (req, p)
            \<and> Response 500 (JsonObject ok_reply) = Response status (JsonObject data)
            \<and> resp_ok status \<and> reply_ok data)"
    by (simp add: resp_ok_def)
  note bad = saveCurrent_commits_or_leaves
    [where sel = demo_selection and m = demo_editing
       and r = "Response 500 (JsonObject ok_reply)",
     THEN conjunct2, THEN conjunct1, rule_format, OF n]
  have alert: "snd (saveCurrent demo_selection (Response 500 (JsonObject ok_reply)) demo_editing)
        = [Alert (SaveFailed (HttpStatus 500))]"
    by (simp add: saveCurrent_def demo_begin saveCurrent_settle_def checked_reply_def resp_ok_def
        msg_or_status_def ok_reply_def empty_reply_def)
  show ?thesis using h good bad alert by (simp add: demo_editing_eval)
qed

text \<open>
  Claim C5.  The claim fails when the modal is closed while a case-law save is pending.
  The note of a case-law record is being created, Save sends it, and Close clears the
  context before the answer arrives.  The answer is 2xx with a truthy \<open>ok\<close>; the second part
  of \<open>saveCurrent\<close> alerts that the notes are saved, reads \<open>onSaved\<close> of the cleared context,
  which throws, and alerts that the save failed.  The intent is still \<open>create\<close> and the
  callback has not run.
\<close>

theorem save_answer_after_close:
  "saveCurrent_begin demo_selection caselaw_draft
     = Inr (PostCaseLawNote 7 ''Bail granted.'', PendingCaseLaw)
   \<and> noteContext (on_close_click caselaw_draft) = None
   \<and> saveCurrent_settle PendingCaseLaw (Response 200 (JsonObject ok_reply))
        (on_close_click caselaw_draft)
       = (on_close_click caselaw_draft,
          [Alert NotesSaved, Alert (SaveFailed (Thrown TypeError))])
   \<and> dataset_intent (on_close_click caselaw_draft) = Some Create"
  by (simp add: caselaw_draft_def saveCurrent_begin_def saveCurrent_settle_def checked_reply_def
      ok_reply_def empty_reply_def resp_ok_def current_intent_def bindGlobalNotesModalHandlers_def
      plain_markup_def modal_defs Let_def)

section \<open>Properties of the renderer and the directory navigator\<close>

lemmas page_defs = set_rows_def renderResults_def showDirLevel_begin_def showDirLevel_settle_def
  enter_dir_def exit_dir_def leave_mode_def on_dir_click_def button_on_def button_off_def
  cloneResults_def remove_row_def delete_settle_def

lemmas demo_page_defs = fresh_page_def searched_page_def scrolled_to_def rec_a_def rec_b_def
  rendered_rows_def buildResultItem_def

lemma smartTruncate_short: "int (length f) \<le> 100 \<Longrightarrow> smartTruncate f 100 = f"
  by (simp add: smartTruncate_def)

lemma searched_page_eval:
  "searched_page =
     \<lparr>results = Some \<lparr>rows = [ResultItem ''petition.pdf'' ''2024/Mar/Doe v. Roe/petition.pdf'' True,
                               ResultItem ''order.pdf'' ''2024/Mar/Doe v. Roe/order.pdf'' True],
                       scrollTop = 120\<rparr>,
      dirBtn = Some \<lparr>btn_active = False, btn_text = ''Directory Search'', btn_pressed = False\<rparr>,
      dirState = \<lparr>active = False, previousScroll = 0, currentPath = []\<rparr>,
      lastRenderedResults = Some [rec_a, rec_b]\<rparr>"
  by (simp add: page_defs demo_page_defs smartTruncate_short Let_def)


lemma settle_inactive: "\<not> active (dirState p) \<Longrightarrow> showDirLevel_settle isAdmin relPath r p = p"
  by (simp add: showDirLevel_settle_def split: fetch_result.splits)

lemma enter_fields:
  assumes "results p = Some host" "\<not> active (dirState p)"
  shows "on_dir_click isAdmin p =
          (p\<lparr>dirState := \<lparr>active = True, previousScroll = scrollTop host, currentPath = []\<rparr>,
             dirBtn := map_option button_on (dirBtn p),
             results := Some (host\<lparr>rows := [TextRow ''Loading directory tree...'']\<rparr>)\<rparr>,
           Some (GetDirTree []))"
  using assms by (simp add: page_defs)

lemma exit_fields:
  assumes "results p = Some host" "active (dirState p)"
  shows "fst (on_dir_click isAdmin p) =
          (case lastRenderedResults p of
             Some xs \<Rightarrow>
               p\<lparr>dirState := \<lparr>active = False, previousScroll = 0, currentPath = []\<rparr>,
                  dirBtn := map_option button_off (dirBtn p),
                  results := Some \<lparr>rows = rendered_rows isAdmin (Some xs),
                                    scrollTop = previousScroll (dirState p)\<rparr>\<rparr>
           | None \<Rightarrow>
               p\<lparr>dirState := \<lparr>active = False, previousScroll = 0, currentPath = []\<rparr>,
                  dirBtn := map_option button_off (dirBtn p),
                  results := Some (host\<lparr>rows := [TextRow ''Use the search tools above to view results.'']\<rparr>)\<rparr>)"
  using assms by (cases host) (simp add: page_defs Let_def split: option.splits)

lemma settle_active:
  "active (dirState p) \<Longrightarrow>
     showDirLevel_settle isAdmin relPath r p =
       set_rows (case r of
                   Rejected \<Rightarrow> [ErrorRow NetworkError]
                 | Response status body \<Rightarrow>
                     (case body of
                        JsonNull \<Rightarrow> [ErrorRow TypeError]
                      | NotJson \<Rightarrow> level_rows isAdmin relPath \<lparr>reply_dirs = None, reply_files = None\<rparr>
                      | JsonObject data \<Rightarrow> level_rows isAdmin relPath data)) p"
  by (simp add: showDirLevel_settle_def split: fetch_result.splits json_body.splits)

lemma render_inactive: "results p \<noteq> None \<Longrightarrow> \<not> active (dirState (renderResults isAdmin l p))"
  by (auto simp: renderResults_def set_rows_def Let_def)

text \<open>
  Claim C6, as amended.  What the second part of \<open>showDirLevel\<close> does is decided by the
  \<open>active\<close> flag of the page it finds when the answer or the error arrives, not by the flag
  at the request.  When the flag is clear then, the page is returned as it is, results
  surface included: so an answer that arrives after the mode has been left, by the button
  or by a render, and not entered again, changes nothing.  When the flag is set then, the
  listing or the error row is put into the surface, whatever happened since the request.
\<close>

theorem listing_decided_by_flag_at_arrival:
  "(\<not> active (dirState p) \<longrightarrow> showDirLevel_settle isAdmin relPath r p = p)
   \<and> (active (dirState p) \<longrightarrow>
        showDirLevel_settle isAdmin relPath r p =
          set_rows (case r of
                      Rejected \<Rightarrow> [ErrorRow NetworkError]
                    | Response status body \<Rightarrow>
                        (case body of
                           JsonNull \<Rightarrow> [ErrorRow TypeError]
                         | NotJson \<Rightarrow> level_rows isAdmin relPath \<lparr>reply_dirs = None, reply_files = None\<rparr>
                         | JsonObject data \<Rightarrow> level_rows isAdmin relPath data)) p)
   \<and> (results p = Some host \<and> active (dirState p) \<longrightarrow>
        \<not> active (dirState (fst (on_dir_click isAdmin p)))
        \<and> showDirLevel_settle isAdmin relPath r (fst (on_dir_click isAdmin p))
            = fst (on_dir_click isAdmin p))
   \<and> (results p \<noteq> None \<longrightarrow>
        showDirLevel_settle isAdmin relPath r (renderResults isAdmin l p)
          = renderResults isAdmin l p)
   \<and> (results p0 = Some host \<and> \<not> active (dirState p0) \<longrightarrow>
        snd (on_dir_click isAdmin p0) = Some (GetDirTree [])
        \<and> active (dirState (fst (on_dir_click isAdmin p0)))
        \<and> \<not> active (dirState (fst (on_dir_click isAdmin (fst (on_dir_click isAdmin p0)))))
        \<and> showDirLevel_settle isAdmin [] r (fst (on_dir_click isAdmin (fst (on_dir_click isAdmin p0))))
            = fst (on_dir_click isAdmin (fst (on_dir_click isAdmin p0))))"
proof (intro conjI impI)
  assume "\<not> active (dirState p)"
  then show "showDirLevel_settle isAdmin relPath r p = p" by (rule settle_inactive)
next
  assume "active (dirState p)"
  then show "showDirLevel_settle isAdmin relPath r p =
          set_rows (case r of
                      Rejected \<Rightarrow> [ErrorRow NetworkError]
                    | Response status body \<Rightarrow>
                        (case body of
                           JsonNull \<Rightarrow> [ErrorRow TypeError]
                         | NotJson \<Rightarrow> level_rows isAdmin relPath \<lparr>reply_dirs = None, reply_files = None\<rparr>
                         | JsonObject data \<Rightarrow> level_rows isAdmin relPath data)) p"
    by (rule settle_active)
next
  assume a: "results p = Some host \<and> active (dirState p)"
  then have r: "results p = Some host" and act: "active (dirState p)" by simp_all
  show off: "\<not> active (dirState (fst (on_dir_click isAdmin p)))"
    unfolding exit_fields [OF r act] by (simp split: option.splits)
  then show "showDirLevel_settle isAdmin relPath r (fst (on_dir_click isAdmin p))
            = fst (on_dir_click isAdmin p)"
    by (rule settle_inactive)
next
  assume "results p \<noteq> None"
  then have "\<not> active (dirState (renderResults isAdmin l p))" by (rule render_inactive)
  then show "showDirLevel_settle isAdmin relPath r (renderResults isAdmin l p)
          = renderResults isAdmin l p"
    by (rule settle_inactive)
next
  assume a: "results p0 = Some host \<and> \<not> active (dirState p0)"
  then have e: "on_dir_click isAdmin p0 =
          (p0\<lparr>dirState := \<lparr>active = True, previousScroll = scrollTop host, currentPath = []\<rparr>,
             dirBtn := map_option button_on (dirBtn p0),
             results := Some (host\<lparr>rows := [TextRow ''Loading directory tree...'']\<rparr>)\<rparr>,
           Some (GetDirTree []))"
    by (simp add: enter_fields)
  show "snd (on_dir_click isAdmin p0) = Some (GetDirTree [])"
    and act: "active (dirState (fst (on_dir_click isAdmin p0)))"
    by (simp_all add: e)
  have r: "results (fst (on_dir_click isAdmin p0))
             = Some (host\<lparr>rows := [TextRow ''Loading directory tree...'']\<rparr>)"
    by (simp add: e)
  show off: "\<not> active (dirState (fst (on_dir_click isAdmin (fst (on_dir_click isAdmin p0)))))"
    unfolding exit_fields [OF r act] by (simp split: option.splits)
  then show "showDirLevel_settle isAdmin [] r (fst (on_dir_click isAdmin (fst (on_dir_click isAdmin p0))))
            = fst (on_dir_click isAdmin (fst (on_dir_click isAdmin p0)))"
    by (rule settle_inactive)
qed

lemma listing_eval:
  "showDirLevel_settle True []
      (Response 200 (JsonObject \<lparr>reply_dirs = Some [''2024''], reply_files = None\<rparr>))
      (fst (on_dir_click True searched_page))
    = (fst (on_dir_click True searched_page))
        \<lparr>results := Some \<lparr>rows = [FolderRow ''2024'' ''2024''], scrollTop = 120\<rparr>\<rparr>"
  by (simp add: searched_page_eval page_defs level_rows_def list_or_empty_def)

theorem listing_decided_by_flag_at_arrival_witness:
  "results searched_page
     = Some \<lparr>rows = [ResultItem ''petition.pdf'' ''2024/Mar/Doe v. Roe/petition.pdf'' True,
                      ResultItem ''order.pdf'' ''2024/Mar/Doe v. Roe/order.pdf'' True],
             scrollTop = 120\<rparr>
   \<and> \<not> active (dirState searched_page)
   \<and> snd (on_dir_click True searched_page) = Some (GetDirTree [])
   \<and> showDirLevel_settle True []
        (Response 200 (JsonObject \<lparr>reply_dirs = Some [''2024''], reply_files = None\<rparr>))
        (fst (on_dir_click True (fst (on_dir_click True searched_page))))
       = fst (on_dir_click True (fst (on_dir_click True searched_page)))
   \<and> active (dirState (fst (on_dir_click True searched_page)))
   \<and> results (showDirLevel_settle True []
        (Response 200 (JsonObject \<lparr>reply_dirs = Some [''2024''], reply_files = None\<rparr>))
        (fst (on_dir_click True searched_page)))
       = Some \<lparr>rows = [FolderRow ''2024'' ''2024''], scrollTop = 120\<rparr>"
proof -
  have h: "results searched_page
     = Some \<lparr>rows = [ResultItem ''petition.pdf'' ''2024/Mar/Doe v. Roe/petition.pdf'' True,
                      ResultItem ''order.pdf'' ''2024/Mar/Doe v. Roe/order.pdf'' True],
             scrollTop = 120\<rparr>
     \<and> \<not> active (dirState searched_page)"
    by (simp add: searched_page_eval)
  note t = listing_decided_by_flag_at_arrival
    [where ?p0.0 = searched_page and isAdmin = True
       and r = "Response 200 (JsonObject \<lparr>reply_dirs = Some [''2024''], reply_files = None\<rparr>)"]
  note away = t [THEN conjunct2, THEN conjunct2, THEN conjunct2, THEN conjunct2, rule_format, OF h]
  have act: "active (dirState (fst (on_dir_click True searched_page)))"
    using away by simp
  note shown = t [where p = "fst (on_dir_click True searched_page)" and relPath = "[]",
      THEN conjunct2, THEN conjunct1, rule_format, OF act]
  have "results (showDirLevel_settle True []
        (Response 200 (JsonObject \<lparr>reply_dirs = Some [''2024''], reply_files = None\<rparr>))
        (fst (on_dir_click True searched_page)))
       = Some \<lparr>rows = [FolderRow ''2024'' ''2024''], scrollTop = 120\<rparr>"
    unfolding shown by (simp add: searched_page_eval page_defs level_rows_def list_or_empty_def)
  then show ?thesis using h away by simp
qed

text \<open>
  Claim C6 as stated fails: the listing of the folder 2024 is requested, the mode is left
  before it resolves and entered again, and when the listing arrives it is rendered over
  the surface of the new session, whose path is the root.
\<close>

theorem stale_listing_after_reentry_counterexample:
  "snd (on_row_click (FolderRow ''2024'' ''2024'') browsing_page) = Some (GetDirTree ''2024'')
   \<and> \<not> active (dirState left_page)
   \<and> results reentered_page
       = Some \<lparr>rows = [TextRow ''Loading directory tree...''], scrollTop = 120\<rparr>
   \<and> currentPath (dirState reentered_page) = []
   \<and> results (showDirLevel_settle True ''2024'' (Response 200 (JsonObject year_listing)) reentered_page)
       = Some \<lparr>rows = [UpRow ''2024'',
                        ResultItem ''order.pdf'' ''2024/Mar/Doe v. Roe/order.pdf'' True],
               scrollTop = 120\<rparr>"
  by (simp add: reentered_page_def left_page_def descending_page_def browsing_page_def
      on_row_click_def root_listing_def year_listing_def searched_page_eval page_defs
      level_rows_def list_or_empty_def demo_page_defs smartTruncate_short Let_def)

text \<open>
  Claim C7, as amended.  Exiting directory-search mode clears the \<open>active\<close> flag and puts
  the rows of the last rendered list (the snapshot kept by the last \<open>renderResults\<close>) into
  the results surface at the scroll offset captured on entry, or the placeholder when
  nothing has been rendered.  Entering and at once exiting ends with the rows of the last
  rendered list and the scroll offset before entry; these are exactly the rows before
  entry whenever the surface then showed that list as rendered.
\<close>

theorem exit_restores_last_rendered:
  "(results p = Some host \<and> active (dirState p) \<longrightarrow>
      \<not> active (dirState (fst (on_dir_click isAdmin p)))
      \<and> results (fst (on_dir_click isAdmin p)) =
          (case lastRenderedResults p of
             Some xs \<Rightarrow> Some \<lparr>rows = rendered_rows isAdmin (Some xs),
                               scrollTop = previousScroll (dirState p)\<rparr>
           | None \<Rightarrow> Some (host\<lparr>rows := [TextRow ''Use the search tools above to view results.'']\<rparr>)))
   \<and> (results p = Some host \<and> \<not> active (dirState p) \<and> lastRenderedResults p = Some xs \<longrightarrow>
        results (fst (on_dir_click isAdmin (fst (on_dir_click isAdmin p))))
          = Some \<lparr>rows = rendered_rows isAdmin (Some xs), scrollTop = scrollTop host\<rparr>)
   \<and> (results p = Some host \<and> \<not> active (dirState p) \<and> lastRenderedResults p = Some xs
        \<and> rows host = rendered_rows isAdmin (Some xs) \<longrightarrow>
        results (fst (on_dir_click isAdmin (fst (on_dir_click isAdmin p)))) = Some host)"
proof (intro conjI impI)
  assume a: "results p = Some host \<and> active (dirState p)"
  then have r: "results p = Some host" and act: "active (dirState p)" by simp_all
  show "\<not> active (dirState (fst (on_dir_click isAdmin p)))"
    unfolding exit_fields [OF r act] by (simp split: option.splits)
  show "results (fst (on_dir_click isAdmin p)) =
          (case lastRenderedResults p of
             Some xs \<Rightarrow> Some \<lparr>rows = rendered_rows isAdmin (Some xs),
                               scrollTop = previousScroll (dirState p)\<rparr>
           | None \<Rightarrow> Some (host\<lparr>rows := [TextRow ''Use the search tools above to view results.'']\<rparr>))"
    unfolding exit_fields [OF r act] by (simp split: option.splits)
next
  assume a: "results p = Some host \<and> \<not> active (dirState p) \<and> lastRenderedResults p = Some xs"
  then have e: "fst (on_dir_click isAdmin p) =
          p\<lparr>dirState := \<lparr>active = True, previousScroll = scrollTop host, currentPath = []\<rparr>,
             dirBtn := map_option button_on (dirBtn p),
             results := Some (host\<lparr>rows := [TextRow ''Loading directory tree...'']\<rparr>)\<rparr>"
    by (simp add: enter_fields)
  have r: "results (fst (on_dir_click isAdmin p))
             = Some (host\<lparr>rows := [TextRow ''Loading directory tree...'']\<rparr>)"
    and act: "active (dirState (fst (on_dir_click isAdmin p)))"
    by (simp_all add: e)
  show "results (fst (on_dir_click isAdmin (fst (on_dir_click isAdmin p))))
          = Some \<lparr>rows = rendered_rows isAdmin (Some xs), scrollTop = scrollTop host\<rparr>"
    unfolding exit_fields [OF r act] using a by (simp add: e)
next
  assume a: "results p = Some host \<and> \<not> active (dirState p) \<and> lastRenderedResults p = Some xs
        \<and> rows host = rendered_rows isAdmin (Some xs)"
  then have e: "fst (on_dir_click isAdmin p) =
          p\<lparr>dirState := \<lparr>active = True, previousScroll = scrollTop host, currentPath = []\<rparr>,
             dirBtn := map_option button_on (dirBtn p),
             results := Some (host\<lparr>rows := [TextRow ''Loading directory tree...'']\<rparr>)\<rparr>"
    by (simp add: enter_fields)
  have r: "results (fst (on_dir_click isAdmin p))
             = Some (host\<lparr>rows := [TextRow ''Loading directory tree...'']\<rparr>)"
    and act: "active (dirState (fst (on_dir_click isAdmin p)))"
    by (simp_all add: e)
  show "results (fst (on_dir_click isAdmin (fst (on_dir_click isAdmin p)))) = Some host"
    unfolding exit_fields [OF r act] using a by (cases host) (simp add: e)
qed

theorem exit_restores_last_rendered_witness:
  "results searched_page
     = Some \<lparr>rows = [ResultItem ''petition.pdf'' ''2024/Mar/Doe v. Roe/petition.pdf'' True,
                      ResultItem ''order.pdf'' ''2024/Mar/Doe v. Roe/order.pdf'' True],
             scrollTop = 120\<rparr>
   \<and> \<not> active (dirState searched_page)
   \<and> lastRenderedResults searched_page = Some [rec_a, rec_b]
   \<and> results (fst (on_dir_click True (fst (on_dir_click True searched_page))))
       = Some \<lparr>rows = [ResultItem ''petition.pdf'' ''2024/Mar/Doe v. Roe/petition.pdf'' True,
                        ResultItem ''order.pdf'' ''2024/Mar/Doe v. Roe/order.pdf'' True],
               scrollTop = 120\<rparr>"
proof -
  have h: "results searched_page
     = Some \<lparr>rows = [ResultItem ''petition.pdf'' ''2024/Mar/Doe v. Roe/petition.pdf'' True,
                      ResultItem ''order.pdf'' ''2024/Mar/Doe v. Roe/order.pdf'' True],
             scrollTop = 120\<rparr>
     \<and> \<not> active (dirState searched_page)
     \<and> lastRenderedResults searched_page = Some [rec_a, rec_b]
     \<and> rows \<lparr>rows = [ResultItem ''petition.pdf'' ''2024/Mar/Doe v. Roe/petition.pdf'' True,
                      ResultItem ''order.pdf'' ''2024/Mar/Doe v. Roe/order.pdf'' True],
             scrollTop = 120\<rparr> = rendered_rows True (Some [rec_a, rec_b])"
    by (simp add: searched_page_eval demo_page_defs smartTruncate_short)
  note t = exit_restores_last_rendered
    [where p = searched_page and isAdmin = True and xs = "[rec_a, rec_b]",
     THEN conjunct2, THEN conjunct2, rule_format, OF h]
  show ?thesis using h t by simp
qed

text \<open>
  Claim C7 as stated fails: after the first of two rendered rows has been deleted (the
  handler removes the row from the surface and leaves the snapshot alone), entering and
  at once exiting brings the deleted row back.
\<close>

theorem exit_after_delete_counterexample:
  "results (fst (delete_settle (Some 0) (Response 200 (JsonObject ok_reply)) searched_page))
     = Some \<lparr>rows = [ResultItem ''order.pdf'' ''2024/Mar/Doe v. Roe/order.pdf'' True],
             scrollTop = 120\<rparr>
   \<and> results (fst (on_dir_click True (fst (on_dir_click True
        (fst (delete_settle (Some 0) (Response 200 (JsonObject ok_reply)) searched_page))))))
     = Some \<lparr>rows = [ResultItem ''petition.pdf'' ''2024/Mar/Doe v. Roe/petition.pdf'' True,
                      ResultItem ''order.pdf'' ''2024/Mar/Doe v. Roe/order.pdf'' True],
             scrollTop = 120\<rparr>"
  by (simp add: searched_page_eval page_defs delete_check_def resp_ok_def ok_reply_def
      empty_reply_def demo_page_defs smartTruncate_short Let_def)

text \<open>
  Claim C9, as amended.  A call of \<open>renderResults\<close> on a page that has the results host
  ends with directory-search mode inactive.  When the mode was active at the call, the
  call resets \<open>dirSearchState\<close> to inactive, scroll 0 and the empty path and restores the
  button; when it was inactive, \<open>dirSearchState\<close> and the button stay as they are.  On a
  page without the host the call changes nothing.
\<close>

theorem renderResults_leaves_mode:
  "(results p \<noteq> None \<longrightarrow> \<not> active (dirState (renderResults isAdmin l p)))
   \<and> (results p \<noteq> None \<and> active (dirState p) \<longrightarrow>
        dirState (renderResults isAdmin l p) = \<lparr>active = False, previousScroll = 0, currentPath = []\<rparr>
        \<and> dirBtn (renderResults isAdmin l p) = map_option button_off (dirBtn p))
   \<and> (\<not> active (dirState p) \<longrightarrow>
        dirState (renderResults isAdmin l p) = dirState p
        \<and> dirBtn (renderResults isAdmin l p) = dirBtn p)
   \<and> (results p = None \<longrightarrow> renderResults isAdmin l p = p)"
  by (auto simp: renderResults_def set_rows_def Let_def split: option.splits)

theorem renderResults_leaves_mode_witness:
  "results (fst (on_dir_click True searched_page)) \<noteq> None
   \<and> active (dirState (fst (on_dir_click True searched_page)))
   \<and> dirState (renderResults True (Some [rec_b]) (fst (on_dir_click True searched_page)))
       = \<lparr>active = False, previousScroll = 0, currentPath = []\<rparr>
   \<and> dirBtn (renderResults True (Some [rec_b]) (fst (on_dir_click True searched_page)))
       = Some \<lparr>btn_active = False, btn_text = ''Directory Search'', btn_pressed = False\<rparr>"
proof -
  have h: "results (fst (on_dir_click True searched_page)) \<noteq> None
     \<and> active (dirState (fst (on_dir_click True searched_page)))"
    by (simp add: searched_page_eval page_defs)
  have b: "dirBtn (fst (on_dir_click True searched_page))
     = Some \<lparr>btn_active = True, btn_text = ''Exit Directory Search'', btn_pressed = True\<rparr>"
    by (simp add: searched_page_eval page_defs)
  note t = renderResults_leaves_mode
    [where p = "fst (on_dir_click True searched_page)" and isAdmin = True and l = "Some [rec_b]",
     THEN conjunct2, THEN conjunct1, rule_format, OF h]
  show ?thesis using h t by (simp add: b button_off_def)
qed

text \<open>
  Claim C9 as stated fails for the call the exit handler makes: the mode has already been
  left, so \<open>renderResults\<close> does not touch \<open>dirSearchState\<close>, and the call ends with the
  scroll offset captured on entry (120 here) still in \<open>previousScroll\<close>.
\<close>

theorem renderResults_keeps_scroll_counterexample:
  "dirState (renderResults True (Some [rec_a, rec_b])
       (leave_mode (fst (on_dir_click True searched_page))))
     = \<lparr>active = False, previousScroll = 120, currentPath = []\<rparr>"
  by (simp add: searched_page_eval page_defs Let_def)

section \<open>Properties of the note button\<close>

lemma getNoteState_exists:
  "note_exists (getNoteState dflt r)
     \<longleftrightarrow> (\<exists>status data. r = Response status (JsonObject data) \<and> resp_ok status \<and> reply_ok data)"
  by (auto simp: getNoteState_def split: fetch_result.splits json_body.splits)

lemma hide_hidden: "\<not> noteBtn_visible (hide_note_button ca)"
  by (simp add: hide_note_button_def)

text \<open>
  Claim C10.  The click handler of the note button asks for the note of the triple that
  is selected when the click happens.  When the answer says the note does not exist, the
  handler alerts, does not open the editor and runs \<open>updateCaseActions\<close>: the invoice button
  is set from the selection; with an incomplete selection the note button is hidden at
  once; with a complete one the note is asked for again, and when that answer finds no
  note either the button is hidden and its handler removed (when it finds one, the button
  is shown and wired again).  When the first answer says the note exists, the editor is
  opened in the update posture with the content of this very answer and the selected
  triple as context.  (\<open>clicked\<close> is the selection read at the click, \<open>sel\<close> the one read
  when the answer arrives.)
\<close>

theorem note_button_click_refetches:
  "noteBtn_click_begin clicked = GetNote (sel_year clicked) (sel_month clicked) (sel_case clicked)
   \<and> (\<not> note_exists (getNoteState dflt r) \<and> hasSelection sel \<longrightarrow>
        noteBtn_click_settle dflt sel r ca
          = (ca\<lparr>invoice_disabled := False\<rparr>, [Alert NoteNotFound],
             Some (GetNote (sel_year sel) (sel_month sel) (sel_case sel))))
   \<and> (\<not> note_exists (getNoteState dflt r) \<and> \<not> hasSelection sel \<longrightarrow>
        noteBtn_click_settle dflt sel r ca
          = (ca\<lparr>invoice_disabled := True, noteBtn_visible := False, noteBtn_hasNote := False,
                 noteBtn_intent := None, noteBtn_onclick := False\<rparr>,
             [Alert NoteNotFound], None))
   \<and> (\<not> note_exists (getNoteState dflt r) \<longrightarrow>
        noteBtn_click_settle dflt sel r ca
          = (fst (updateCaseActions_begin sel ca), [Alert NoteNotFound],
             snd (updateCaseActions_begin sel ca)))
   \<and> (\<not> note_exists (getNoteState dflt r) \<and> hasSelection sel
        \<and> \<not> note_exists (getNoteState dflt r2) \<longrightarrow>
        updateCaseActions_settle dflt r2 (fst (noteBtn_click_settle dflt sel r ca))
          = ca\<lparr>invoice_disabled := False, noteBtn_visible := False, noteBtn_hasNote := False,
                noteBtn_intent := None, noteBtn_onclick := False\<rparr>)
   \<and> (\<not> note_exists (getNoteState dflt r) \<and> hasSelection sel
        \<and> note_exists (getNoteState dflt r2) \<longrightarrow>
        updateCaseActions_settle dflt r2 (fst (noteBtn_click_settle dflt sel r ca))
          = ca\<lparr>invoice_disabled := False, noteBtn_visible := True, noteBtn_hasNote := True,
                noteBtn_intent := Some Update, noteBtn_text := ''View / Edit Note.json'',
                noteBtn_onclick := True\<rparr>)
   \<and> (note_exists (getNoteState dflt r) \<longrightarrow>
        noteBtn_click_settle dflt sel r ca
          = (ca, [OpenNotesModal (note_content (getNoteState dflt r)) Update
                    (CaseContext (sel_year sel) (sel_month sel) (sel_case sel))], None))
   \<and> (resp_ok status \<and> reply_ok data \<longrightarrow>
        note_exists (getNoteState dflt (Response status (JsonObject data)))
        \<and> note_content (getNoteState dflt (Response status (JsonObject data)))
            = or_else (reply_content data) [])
   \<and> (note_exists (getNoteState dflt r) \<longrightarrow>
        (\<exists>status data. r = Response status (JsonObject data) \<and> resp_ok status \<and> reply_ok data))"
proof (intro conjI impI)
  show "noteBtn_click_begin clicked = GetNote (sel_year clicked) (sel_month clicked) (sel_case clicked)"
    by (simp add: noteBtn_click_begin_def)
next
  assume "\<not> note_exists (getNoteState dflt r) \<and> hasSelection sel"
  then show "noteBtn_click_settle dflt sel r ca
          = (ca\<lparr>invoice_disabled := False\<rparr>, [Alert NoteNotFound],
             Some (GetNote (sel_year sel) (sel_month sel) (sel_case sel)))"
    by (simp add: noteBtn_click_settle_def updateCaseActions_begin_def Let_def)
next
  assume "\<not> note_exists (getNoteState dflt r) \<and> \<not> hasSelection sel"
  then show "noteBtn_click_settle dflt sel r ca
          = (ca\<lparr>invoice_disabled := True, noteBtn_visible := False, noteBtn_hasNote := False,
                 noteBtn_intent := None, noteBtn_onclick := False\<rparr>,
             [Alert NoteNotFound], None)"
    by (simp add: noteBtn_click_settle_def updateCaseActions_begin_def hide_note_button_def Let_def)
next
  assume "\<not> note_exists (getNoteState dflt r)"
  then show "noteBtn_click_settle dflt sel r ca
          = (fst (updateCaseActions_begin sel ca), [Alert NoteNotFound],
             snd (updateCaseActions_begin sel ca))"
    by (simp add: noteBtn_click_settle_def Let_def)
next
  assume "\<not> note_exists (getNoteState dflt r) \<and> hasSelection sel
        \<and> \<not> note_exists (getNoteState dflt r2)"
  then show "updateCaseActions_settle dflt r2 (fst (noteBtn_click_settle dflt sel r ca))
          = ca\<lparr>invoice_disabled := False, noteBtn_visible := False, noteBtn_hasNote := False,
                noteBtn_intent := None, noteBtn_onclick := False\<rparr>"
    by (simp add: noteBtn_click_settle_def updateCaseActions_begin_def updateCaseActions_settle_def
        hide_note_button_def Let_def)
next
  assume "\<not> note_exists (getNoteState dflt r) \<and> hasSelection sel
        \<and> note_exists (getNoteState dflt r2)"
  then show "updateCaseActions_settle dflt r2 (fst (noteBtn_click_settle dflt sel r ca))
          = ca\<lparr>invoice_disabled := False, noteBtn_visible := True, noteBtn_hasNote := True,
                noteBtn_intent := Some Update, noteBtn_text := ''View / Edit Note.json'',
                noteBtn_onclick := True\<rparr>"
    by (simp add: noteBtn_click_settle_def updateCaseActions_begin_def updateCaseActions_settle_def
        Let_def)
next
  assume "note_exists (getNoteState dflt r)"
  then show "noteBtn_click_settle dflt sel r ca
          = (ca, [OpenNotesModal (note_content (getNoteState dflt r)) Update
                    (CaseContext (sel_year sel) (sel_month sel) (sel_case sel))], None)"
    by (simp add: noteBtn_click_settle_def Let_def)
next
  assume a: "resp_ok status \<and> reply_ok data"
  then show "note_exists (getNoteState dflt (Response status (JsonObject data)))"
    and "note_content (getNoteState dflt (Response status (JsonObject data)))
            = or_else (reply_content data) []"
    by (simp_all add: getNoteState_def)
next
  assume "note_exists (getNoteState dflt r)"
  then show "\<exists>status data. r = Response status (JsonObject data) \<and> resp_ok status \<and> reply_ok data"
    by (simp add: getNoteState_exists)
qed

theorem note_button_click_refetches_witness:
  "\<not> note_exists (getNoteState ''{}'' (Response 404 (JsonObject empty_reply)))
   \<and> hasSelection demo_selection
   \<and> noteBtn_click_settle ''{}'' demo_selection (Response 404 (JsonObject empty_reply)) visible_button
       = (visible_button, [Alert NoteNotFound], Some (GetNote ''2024'' ''Mar'' ''Doe v. Roe''))
   \<and> updateCaseActions_settle ''{}'' (Response 404 (JsonObject empty_reply))
        (fst (noteBtn_click_settle ''{}'' demo_selection (Response 404 (JsonObject empty_reply)) visible_button))
       = \<lparr>invoice_disabled = False, noteBtn_visible = False, noteBtn_hasNote = False,
          noteBtn_intent = None, noteBtn_text = ''View / Edit Note.json'',
          noteBtn_onclick = False\<rparr>
   \<and> resp_ok 200 \<and> reply_ok note_reply
   \<and> note_exists (getNoteState ''{}'' (Response 200 (JsonObject note_reply)))
   \<and> noteBtn_click_settle ''{}'' demo_selection (Response 200 (JsonObject note_reply)) visible_button
       = (visible_button,
          [OpenNotesModal ''{ Our Party: Doe }'' Update (CaseContext ''2024'' ''Mar'' ''Doe v. Roe'')],
          None)"
proof -
  have n: "\<not> note_exists (getNoteState ''{}'' (Response 404 (JsonObject empty_reply)))"
    by (simp add: getNoteState_def resp_ok_def)
  have s: "hasSelection demo_selection"
    by (simp add: hasSelection_def demo_selection_def)
  have ok: "resp_ok 200 \<and> reply_ok note_reply"
    by (simp add: resp_ok_def note_reply_def)
  note t = note_button_click_refetches
    [where dflt = "''{}''" and sel = demo_selection and ca = visible_button]
  have ns: "\<not> note_exists (getNoteState ''{}'' (Response 404 (JsonObject empty_reply)))
      \<and> hasSelection demo_selection" using n s by simp
  note miss = t [where r = "Response 404 (JsonObject empty_reply)",
      THEN conjunct2, THEN conjunct1, rule_format, OF ns]
  have nsn: "\<not> note_exists (getNoteState ''{}'' (Response 404 (JsonObject empty_reply)))
      \<and> hasSelection demo_selection
      \<and> \<not> note_exists (getNoteState ''{}'' (Response 404 (JsonObject empty_reply)))"
    using n s by simp
  note again = t [where r = "Response 404 (JsonObject empty_reply)"
      and ?r2.0 = "Response 404 (JsonObject empty_reply)",
      THEN conjunct2, THEN conjunct2, THEN conjunct2, THEN conjunct2, THEN conjunct1,
      rule_format, OF nsn]
  note ex = t [where status = 200 and data = note_reply,
      THEN conjunct2, THEN conjunct2, THEN conjunct2, THEN conjunct2, THEN conjunct2,
      THEN conjunct2, THEN conjunct2, THEN conjunct1, rule_format, OF ok]
  note hit = t [where r = "Response 200 (JsonObject note_reply)",
      THEN conjunct2, THEN conjunct2, THEN conjunct2, THEN conjunct2, THEN conjunct2,
      THEN conjunct2, THEN conjunct1, rule_format, OF ex [THEN conjunct1]]
  have c: "note_content (getNoteState ''{}'' (Response 200 (JsonObject note_reply))) = ''{ Our Party: Doe }''"
    using ex by (simp add: note_reply_def or_else_def)
  show ?thesis using n s ok ex miss again hit c
    by (simp add: demo_selection_def visible_button_def)
qed

section \<open>Properties of the failure checks\<close>












end
